theory Spec2Isabelle
  imports Main "HOL-Library.Sublist"
begin

section \<open>The diagram dialog of big-AGI: \<^verbatim>\<open>src/modules/aifn/digrams/DiagramsModal.tsx\<close>\<close>

text \<open>
  The file holds one pure function, \<^verbatim>\<open>hotFixDiagramCode\<close>, and one React component,
  \<^verbatim>\<open>DiagramsModal\<close>, whose handlers \<^verbatim>\<open>handleGenerateNew\<close> and
  \<^verbatim>\<open>handleInsertAndClose\<close> and whose unmount effect change the component state and
  call three collaborators: the streaming client, the chat store and the \<^verbatim>\<open>onClose\<close>
  property. The handlers are modelled as functions from the component state to the list of
  effects they issue, in program order; a state setter is an effect, and \<open>run\<close> applies
  the setters of a list to a state.

  A JavaScript string is a sequence of code units; here it is a \<^typ>\<open>string\<close>, one
  \<^typ>\<open>char\<close> for one code unit. The three string operations are polymorphic in the element
  type, so nothing proved about them depends on the alphabet.
\<close>

subsection \<open>String operations of the JavaScript library\<close>

text \<open>\<^verbatim>\<open>s.startsWith(p)\<close>: the first \<open>length p\<close> code units of \<open>s\<close> are \<open>p\<close>.\<close>

definition startsWith :: "'a list \<Rightarrow> 'a list \<Rightarrow> bool" where
  "startsWith s p = (take (length p) s = p)"

text \<open>
  \<^verbatim>\<open>s.replaceAll(pat, rep)\<close> for a string pattern: the matches are found by one scan from
  the left, each search resuming after the end of the previous match (after one code unit when
  the pattern is empty), and every match is replaced by \<open>rep\<close>. Text produced by a replacement is
  not scanned again. The replacement is taken literally, which is what the library does for a
  replacement without a dollar sign; both replacements of this file are such.
\<close>

function replaceAll :: "'a list \<Rightarrow> 'a list \<Rightarrow> 'a list \<Rightarrow> 'a list" where
  "replaceAll s pat rep =
     (if pat = [] then rep @ concat (map (\<lambda>c. c # rep) s)
      else if s = [] then []
      else if take (length pat) s = pat then rep @ replaceAll (drop (length pat) s) pat rep
      else hd s # replaceAll (tl s) pat rep)"
  by pat_completeness auto
termination
  by (relation "measure (\<lambda>(s, pat, rep). length s)") auto

declare replaceAll.simps [simp del]

text \<open>\<^verbatim>\<open>s.includes(pat)\<close>: \<open>pat\<close> occurs in \<open>s\<close> at some position.\<close>

fun contains :: "'a list \<Rightarrow> 'a list \<Rightarrow> bool" where
  "contains [] pat = (pat = [])"
| "contains (c # cs) pat = (take (length pat) (c # cs) = pat \<or> contains cs pat)"

subsection \<open>The repair function\<close>

text \<open>
  \<^verbatim>\<open>
  function hotFixDiagramCode(llmCode: string): string {
    if (llmCode.startsWith('@start'))
      llmCode = '```\n' + llmCode + '\n```';
    return llmCode
      .replaceAll('@endmindmap\n@enduml', '@endmindmap')
      .replaceAll('```\n```', '```');
  }
  \<close>
\<close>

definition hotFixDiagramCode :: "string \<Rightarrow> string" where
  "hotFixDiagramCode llmCode =
     (let llmCode = (if startsWith llmCode ''@start''
                     then ''```\<newline>'' @ llmCode @ ''\<newline>```'' else llmCode)
      in replaceAll (replaceAll llmCode ''@endmindmap\<newline>@enduml'' ''@endmindmap'')
           ''```\<newline>```'' ''```'')"

subsection \<open>Data of the dialog\<close>

text \<open>
  \<^verbatim>\<open>DiagramConfig\<close> is the property handed in by the caller. The field \<^verbatim>\<open>text\<close> is
  called \<open>config_text\<close> here, the fields \<^verbatim>\<open>id\<close> of a conversation and of a model
  \<open>conv_id\<close> and \<open>llm_id\<close>, and the field \<^verbatim>\<open>text\<close> of a message \<open>message_text\<close>.
\<close>

record DiagramConfig =
  conversationId :: string
  messageId :: string
  config_text :: string

text \<open>Of a chat message the dialog reads the role and the text and writes the origin tag.\<close>

record DMessage =
  role :: string
  message_text :: string
  originLLM :: "string option"

record DConversation =
  conv_id :: string
  messages :: "DMessage list"

record DLLM =
  llm_id :: string

text \<open>
  An \<^verbatim>\<open>AbortController\<close> object is known by its identity: the component only stores it,
  compares it with \<^verbatim>\<open>null\<close>, passes its signal on and calls \<^verbatim>\<open>abort()\<close> on it.
\<close>

type_synonym handle = nat

text \<open>
  The component state: the values of the \<^verbatim>\<open>useState\<close> hooks and of the three form
  hooks. \<^verbatim>\<open>null\<close> is \<open>None\<close>.
\<close>

record modal =
  showOptions :: bool
  diagramCode :: "string option"
  diagramType :: "string option"
  diagramLanguage :: "string option"
  customInstruction :: string
  errorMessage :: "string option"
  abortController :: "handle option"
  diagramLlm :: "DLLM option"

text \<open>
  Truthiness of a value of type \<^verbatim>\<open>string | null\<close>: \<^verbatim>\<open>null\<close> and the empty string
  are falsy.
\<close>

definition truthy :: "string option \<Rightarrow> bool" where
  "truthy v = (case v of None \<Rightarrow> False | Some t \<Rightarrow> t \<noteq> [])"

text \<open>
  The value a rejected streaming call throws is read through \<^verbatim>\<open>error?.name\<close> and
  \<^verbatim>\<open>error?.message\<close> only; a field that is missing reads as \<open>None\<close>.
\<close>

record thrown =
  err_name :: "string option"
  err_message :: "string option"

datatype outcome = Resolved | Rejected thrown

text \<open>
  The prompt is built by \<^verbatim>\<open>bigDiagramPrompt\<close> of \<^verbatim>\<open>diagrams.data\<close>; the dialog
  hands it to the streaming client unread, so it is kept as the five arguments of that call.
\<close>

datatype prompt = BigDiagramPrompt string string string string string

text \<open>What a handler does, one constructor for each call that leaves the handler.\<close>

datatype effect =
    SetErrorMessage "string option"
  | SetDiagramCode "string option"
  | SetAbortController "handle option"
  | LlmStreamingChatGenerate string prompt handle
  | Abort handle
  | AppendMessage string DMessage
  | OnClose

fun apply_effect :: "effect \<Rightarrow> modal \<Rightarrow> modal" where
  "apply_effect (SetErrorMessage v) st = st\<lparr>errorMessage := v\<rparr>"
| "apply_effect (SetDiagramCode v) st = st\<lparr>diagramCode := v\<rparr>"
| "apply_effect (SetAbortController v) st = st\<lparr>abortController := v\<rparr>"
| "apply_effect (LlmStreamingChatGenerate llm p h) st = st"
| "apply_effect (Abort h) st = st"
| "apply_effect (AppendMessage cid m) st = st"
| "apply_effect OnClose st = st"

definition run :: "effect list \<Rightarrow> modal \<Rightarrow> modal" where
  "run es st = fold apply_effect es st"

fun is_streaming_call :: "effect \<Rightarrow> bool" where
  "is_streaming_call (LlmStreamingChatGenerate llm p h) = True"
| "is_streaming_call e = False"

fun is_store_mutation :: "effect \<Rightarrow> bool" where
  "is_store_mutation (AppendMessage cid m) = True"
| "is_store_mutation e = False"

fun is_abort :: "effect \<Rightarrow> bool" where
  "is_abort (Abort h) = True"
| "is_abort e = False"

subsection \<open>\<^verbatim>\<open>handleGenerateNew\<close>\<close>

text \<open>
  The handler is asynchronous. \<open>handleGenerateNew_begin\<close> is its body up to the
  \<^verbatim>\<open>await\<close>: the guard on the cancel handle, the two validations, the three setters and
  the streaming call. It returns the effects and, when the call was issued, the local variable
  \<^verbatim>\<open>diagramCode\<close> and the new controller, which the rest of the handler keeps.
  \<open>conversations\<close> is the list in the chat store and \<open>stepAbortController\<close> the object
  that \<^verbatim>\<open>new AbortController()\<close> returns. The four tests of the first validation are one
  disjunction in the source; they have no effect, so their order is free.
\<close>

definition handleGenerateNew_begin ::
  "DiagramConfig \<Rightarrow> DConversation list \<Rightarrow> handle \<Rightarrow> modal
     \<Rightarrow> effect list \<times> (string \<times> handle) option" where
  "handleGenerateNew_begin props conversations stepAbortController st =
     (let invalid =
            ([SetErrorMessage (Some ''Invalid diagram Type, Language, Generator, or conversation.'')],
             None);
          noSystem = ([SetErrorMessage (Some ''No System message in this conversation'')], None)
      in if abortController st \<noteq> None then ([], None)
         else
          (case find (\<lambda>c. conv_id c = conversationId props) conversations of
             None \<Rightarrow> invalid
           | Some conversation \<Rightarrow>
              (case diagramType st of None \<Rightarrow> invalid | Some ty \<Rightarrow>
              (case diagramLanguage st of None \<Rightarrow> invalid | Some lang \<Rightarrow>
              (case diagramLlm st of None \<Rightarrow> invalid | Some llm \<Rightarrow>
                 if ty = [] \<or> lang = [] then invalid
                 else
                  (case messages conversation of
                     [] \<Rightarrow> noSystem
                   | systemMessage # rest \<Rightarrow>
                       if role systemMessage \<noteq> ''system'' then noSystem
                       else
                         ([SetErrorMessage None,
                           SetDiagramCode (Some ''Loading...''),
                           SetAbortController (Some stepAbortController),
                           LlmStreamingChatGenerate (llm_id llm)
                             (BigDiagramPrompt ty lang (message_text systemMessage)
                                (config_text props) (customInstruction st))
                             stepAbortController],
                          Some (''Loading...'', stepAbortController))))))))"

text \<open>
  The callback of the streaming call,
  \<^verbatim>\<open>({ textSoFar }) => textSoFar && setDiagramCode(diagramCode = textSoFar)\<close>: a non-empty
  text replaces the local variable and the state; an empty one does nothing.
\<close>

definition onUpdate :: "string \<Rightarrow> string \<Rightarrow> effect list \<times> string" where
  "onUpdate textSoFar local =
     (if textSoFar \<noteq> [] then ([SetDiagramCode (Some textSoFar)], textSoFar) else ([], local))"

fun onUpdates :: "string list \<Rightarrow> string \<Rightarrow> effect list \<times> string" where
  "onUpdates [] local = ([], local)"
| "onUpdates (t # ts) local =
     (case onUpdate t local of (es, local') \<Rightarrow>
        (case onUpdates ts local' of (es', local'') \<Rightarrow> (es @ es', local'')))"

text \<open>
  The rest of the handler, once the call has settled: the \<^verbatim>\<open>catch\<close> block when it was
  rejected, then the \<^verbatim>\<open>finally\<close> block.
\<close>

definition catch_block :: "thrown \<Rightarrow> effect list" where
  "catch_block error =
     [SetDiagramCode None,
      SetErrorMessage (if err_name error \<noteq> Some ''AbortError'' then err_message error
                       else Some ''Interrupted.'')]"

definition finally_block :: "string \<Rightarrow> effect list" where
  "finally_block local = [SetDiagramCode (Some (hotFixDiagramCode local)), SetAbortController None]"

definition handleGenerateNew_settle :: "outcome \<Rightarrow> string \<Rightarrow> effect list" where
  "handleGenerateNew_settle out local =
     (case out of Resolved \<Rightarrow> [] | Rejected error \<Rightarrow> catch_block error) @ finally_block local"

text \<open>
  One whole run of the handler, with nothing else in between: \<open>partials\<close> are the texts the
  client delivers to the callback, in order, and \<open>out\<close> is how its promise settles.
\<close>

definition handleGenerateNew ::
  "DiagramConfig \<Rightarrow> DConversation list \<Rightarrow> handle \<Rightarrow> string list \<Rightarrow> outcome \<Rightarrow> modal
     \<Rightarrow> effect list" where
  "handleGenerateNew props conversations stepAbortController partials out st =
     (case handleGenerateNew_begin props conversations stepAbortController st of
        (es, None) \<Rightarrow> es
      | (es, Some (local, controller)) \<Rightarrow>
          (case onUpdates partials local of
             (es', local') \<Rightarrow> es @ es' @ handleGenerateNew_settle out local'))"

text \<open>
  The last known text in the words of the specification: the last non-empty partial text, or
  the placeholder when none arrived.
\<close>

definition lastKnownText :: "string list \<Rightarrow> string" where
  "lastKnownText partials =
     (case filter (\<lambda>t. t \<noteq> []) partials of [] \<Rightarrow> ''Loading...'' | t # ts \<Rightarrow> last (t # ts))"

subsection \<open>The unmount effect\<close>

text \<open>
  \<^verbatim>\<open>
  React.useEffect(() => {
    return () => {
      if (abortController) {
        abortController.abort();
        setAbortController(null);
      }
    };
  }, [abortController]);
  \<close>
  The cleanup closes over the handle of the render that registered it. The effect depends on
  \<^verbatim>\<open>abortController\<close>, so React registers a new cleanup whenever the handle changes, and
  at unmount runs the one of the last render: its handle is the handle of the state.
\<close>

definition autoAbort_cleanup :: "handle option \<Rightarrow> effect list" where
  "autoAbort_cleanup captured =
     (case captured of None \<Rightarrow> [] | Some controller \<Rightarrow> [Abort controller, SetAbortController None])"

definition unmount :: "modal \<Rightarrow> effect list" where
  "unmount st = autoAbort_cleanup (abortController st)"

subsection \<open>\<^verbatim>\<open>handleInsertAndClose\<close> and the two buttons\<close>

text \<open>
  Modelled from the spec: \<^verbatim>\<open>createDMessage\<close> of \<^verbatim>\<open>store-chats\<close>, which is not among the
  sources. It builds the message from a role and a text; the origin tag is not set by it.
\<close>

definition createDMessage :: "string \<Rightarrow> string \<Rightarrow> DMessage" where
  "createDMessage r t = \<lparr>role = r, message_text = t, originLLM = None\<rparr>"

definition DIAGRAM_ACTOR_PREFIX :: string where
  "DIAGRAM_ACTOR_PREFIX = ''diagram''"

text \<open>
  The origin tag, \<^verbatim>\<open>DIAGRAM_ACTOR_PREFIX + (diagramLlm?.id ? `-${diagramLlm.id}` : '')\<close>:
  the identifier is appended when a model is selected and its identifier is not empty.
\<close>

definition originTag :: "DLLM option \<Rightarrow> string" where
  "originTag llm =
     DIAGRAM_ACTOR_PREFIX @
     (case llm of None \<Rightarrow> [] | Some l \<Rightarrow> if llm_id l \<noteq> [] then ''-'' @ llm_id l else [])"

text \<open>
  \<^verbatim>\<open>if (!diagramCode) return setErrorMessage(...)\<close> is the test on \<open>truthy\<close>; behind it
  the text is not \<^verbatim>\<open>null\<close>, and the \<open>case\<close> only names it.
\<close>

definition handleInsertAndClose :: "DiagramConfig \<Rightarrow> modal \<Rightarrow> effect list" where
  "handleInsertAndClose props st =
     (if \<not> truthy (diagramCode st)
      then [SetErrorMessage (Some ''Nothing to add to the conversation.'')]
      else
        case diagramCode st of
          None \<Rightarrow> [SetErrorMessage (Some ''Nothing to add to the conversation.'')]
        | Some code \<Rightarrow>
            [AppendMessage (conversationId props)
               ((createDMessage ''assistant'' code)\<lparr>originLLM := Some (originTag (diagramLlm st))\<rparr>),
             OnClose])"

text \<open>
  The button \<^verbatim>\<open>Add To Chat\<close> has
  \<^verbatim>\<open>disabled={!diagramCode || !!abortController}\<close>; the other button calls
  \<^verbatim>\<open>abortController.abort()\<close> while a handle is set and \<^verbatim>\<open>handleGenerateNew\<close> otherwise.
\<close>

definition addToChat_disabled :: "modal \<Rightarrow> bool" where
  "addToChat_disabled st = (\<not> truthy (diagramCode st) \<or> abortController st \<noteq> None)"

subsection \<open>The states a dialog goes through\<close>

text \<open>
  A dialog is its state and the runs of \<^verbatim>\<open>handleGenerateNew\<close> that wait for their
  streaming call, each with its local variable and its controller. It starts in the state of
  the first render (the model chosen by the form hook is any), and then the user changes a
  selection, \<^verbatim>\<open>handleGenerateNew\<close> is called with a new controller, the client delivers a
  text to a waiting run, a waiting run settles, or \<^verbatim>\<open>handleInsertAndClose\<close> is called.
\<close>

inductive reachable :: "DiagramConfig \<Rightarrow> modal \<times> (string \<times> handle) list \<Rightarrow> bool"
  for props :: DiagramConfig where
  mount:
    "reachable props
       (\<lparr>showOptions = True, diagramCode = None, diagramType = Some ''auto'',
         diagramLanguage = Some ''plantuml'', customInstruction = [], errorMessage = None,
         abortController = None, diagramLlm = llm\<rparr>, [])"
| select:
    "reachable props (st, waiting) \<Longrightarrow>
     reachable props
       (st\<lparr>showOptions := so, diagramType := ty, diagramLanguage := lang,
           customInstruction := ci, diagramLlm := llm\<rparr>, waiting)"
| generate:
    "reachable props (st, waiting) \<Longrightarrow> h \<notin> snd ` set waiting \<Longrightarrow>
     handleGenerateNew_begin props conversations h st = (es, started) \<Longrightarrow>
     reachable props (run es st, waiting @ (case started of None \<Rightarrow> [] | Some w \<Rightarrow> [w]))"
| deliver:
    "reachable props (st, waiting) \<Longrightarrow> i < length waiting \<Longrightarrow>
     onUpdate textSoFar (fst (waiting ! i)) = (es, local') \<Longrightarrow>
     reachable props (run es st, waiting[i := (local', snd (waiting ! i))])"
| settle:
    "reachable props (st, waiting) \<Longrightarrow> i < length waiting \<Longrightarrow>
     reachable props
       (run (handleGenerateNew_settle out (fst (waiting ! i))) st,
        take i waiting @ drop (Suc i) waiting)"
| insert:
    "reachable props (st, waiting) \<Longrightarrow>
     reachable props (run (handleInsertAndClose props st) st, waiting)"

section \<open>Properties of the string operations\<close>

text \<open>
  The lemmas of this section are about \<open>replaceAll\<close> with a non-empty pattern, for any
  element type. They follow the scan: a match at the front is replaced and the scan resumes
  behind it, anything else is copied.
\<close>

lemma take_eq_length_le: "take (length pat) s = pat \<Longrightarrow> length pat \<le> length s"
proof -
  assume "take (length pat) s = pat"
  then have "length (take (length pat) s) = length pat" by simp
  then show ?thesis by simp
qed

lemma replaceAll_Nil: "pat \<noteq> [] \<Longrightarrow> replaceAll [] pat rep = []"
  by (simp add: replaceAll.simps)

lemma replaceAll_match:
  "pat \<noteq> [] \<Longrightarrow> take (length pat) s = pat \<Longrightarrow>
   replaceAll s pat rep = rep @ replaceAll (drop (length pat) s) pat rep"
  by (subst replaceAll.simps) auto

lemma replaceAll_skip:
  "pat \<noteq> [] \<Longrightarrow> take (length pat) (c # cs) \<noteq> pat \<Longrightarrow>
   replaceAll (c # cs) pat rep = c # replaceAll cs pat rep"
  by (subst replaceAll.simps) simp

lemma replaceAll_skip_hd:
  "pat \<noteq> [] \<Longrightarrow> hd pat \<noteq> c \<Longrightarrow> replaceAll (c # cs) pat rep = c # replaceAll cs pat rep"
  by (rule replaceAll_skip) (auto simp: neq_Nil_conv)

lemma replaceAll_absent:
  "pat \<noteq> [] \<Longrightarrow> \<not> contains s pat \<Longrightarrow> replaceAll s pat rep = s"
  by (induction s) (auto simp: replaceAll_Nil replaceAll_skip)

lemma replaceAll_length_le:
  "pat \<noteq> [] \<Longrightarrow> length rep \<le> length pat \<Longrightarrow> length (replaceAll s pat rep) \<le> length s"
proof (induction s pat rep rule: replaceAll.induct)
  case (1 s pat rep)
  show ?case
  proof (cases "s = []")
    case True
    with 1 show ?thesis by (simp add: replaceAll_Nil)
  next
    case ne: False
    show ?thesis
    proof (cases "take (length pat) s = pat")
      case True
      then have len: "length pat \<le> length s"
        by (rule take_eq_length_le)
      from 1 ne True have "length (replaceAll (drop (length pat) s) pat rep) \<le> length s - length pat"
        by simp
      with 1(3,4) len True show ?thesis by (simp add: replaceAll_match)
    next
      case False
      from ne obtain c cs where s: "s = c # cs" by (cases s) auto
      from 1 ne False s have "length (replaceAll cs pat rep) \<le> length cs" by simp
      with 1(3) False s show ?thesis by (simp add: replaceAll_skip)
    qed
  qed
qed

lemma replaceAll_length_less:
  "pat \<noteq> [] \<Longrightarrow> length rep < length pat \<Longrightarrow> contains s pat \<Longrightarrow>
   length (replaceAll s pat rep) < length s"
proof (induction s)
  case Nil
  then show ?case by simp
next
  case (Cons c cs)
  show ?case
  proof (cases "take (length pat) (c # cs) = pat")
    case True
    then have len: "length pat \<le> length (c # cs)"
      by (rule take_eq_length_le)
    have "length (replaceAll (drop (length pat) (c # cs)) pat rep) \<le> length (c # cs) - length pat"
      using replaceAll_length_le [of pat rep "drop (length pat) (c # cs)"] Cons.prems by simp
    with Cons.prems len True show ?thesis
      by (simp add: replaceAll_match [of pat "c # cs"])
  next
    case False
    with Cons show ?thesis by (simp add: replaceAll_skip)
  qed
qed

lemma replaceAll_prefix_reflect:
  "pat \<noteq> [] \<Longrightarrow> rep \<noteq> [] \<Longrightarrow> hd rep = hd pat \<Longrightarrow> hd pat \<notin> set q \<Longrightarrow>
   take (length q) (replaceAll s pat rep) = q \<Longrightarrow> take (length q) s = q"
proof (induction s pat rep arbitrary: q rule: replaceAll.induct)
  case (1 s pat rep)
  show ?case
  proof (cases q)
    case Nil
    then show ?thesis by simp
  next
    case (Cons x q')
    show ?thesis
    proof (cases s)
      case Nil
      with 1(3,7) Cons show ?thesis by (simp add: replaceAll_Nil)
    next
      case s: (Cons c cs)
      show ?thesis
      proof (cases "take (length pat) s = pat")
        case True
        with 1(3,7) have "take (length q) (rep @ replaceAll (drop (length pat) s) pat rep) = q"
          by (simp add: replaceAll_match)
        with Cons 1(4) have "x = hd rep" by (cases rep) auto
        with 1(5,6) Cons show ?thesis by simp
      next
        case False
        with 1(3,7) s Cons have x: "x = c" and t: "take (length q') (replaceAll cs pat rep) = q'"
          by (simp_all add: replaceAll_skip)
        from 1(6) Cons have "hd pat \<notin> set q'" by simp
        with 1(2) [of q'] 1(3,4,5) False s t have "take (length q') cs = q'" by simp
        with x s Cons show ?thesis by simp
      qed
    qed
  qed
qed

lemma replaceAll_sep:
  "pat \<noteq> [] \<Longrightarrow> c \<notin> set pat \<Longrightarrow>
   replaceAll (x @ c # y) pat rep = replaceAll x pat rep @ c # replaceAll y pat rep"
proof (induction x pat rep rule: replaceAll.induct)
  case (1 s pat rep)
  have nomatch: "\<And>u. length u < length pat \<Longrightarrow> take (length pat) (u @ c # y) \<noteq> pat"
  proof
    fix u :: "'a list" assume lu: "length u < length pat"
      and eq: "take (length pat) (u @ c # y) = pat"
    have "pat ! length u = (take (length pat) (u @ c # y)) ! length u" using eq by simp
    also have "\<dots> = (u @ c # y) ! length u" using lu by (rule nth_take)
    also have "\<dots> = c" by simp
    finally have "c \<in> set pat" using lu by (metis nth_mem)
    with 1(4) show False by simp
  qed
  show ?case
  proof (cases s)
    case Nil
    have "take (length pat) (c # y) \<noteq> pat" using nomatch [of "[]"] 1(3) by simp
    with 1(3) Nil show ?thesis by (simp add: replaceAll_Nil replaceAll_skip)
  next
    case s: (Cons d ds)
    show ?thesis
    proof (cases "take (length pat) s = pat")
      case True
      then have len: "length pat \<le> length s" by (rule take_eq_length_le)
      then have t: "take (length pat) (s @ c # y) = pat" using True by simp
      have d: "drop (length pat) (s @ c # y) = drop (length pat) s @ c # y" using len by simp
      from 1(1) 1(3,4) True s
      have "replaceAll (drop (length pat) s @ c # y) pat rep =
            replaceAll (drop (length pat) s) pat rep @ c # replaceAll y pat rep" by simp
      with 1(3) t d True show ?thesis
        by (simp add: replaceAll_match [of pat "s @ c # y"] replaceAll_match [of pat s])
    next
      case False
      have "take (length pat) (s @ c # y) \<noteq> pat"
      proof (cases "length pat \<le> length s")
        case True
        with False show ?thesis by simp
      next
        case False
        then have "length s < length pat" by simp
        then show ?thesis by (rule nomatch)
      qed
      then have a: "replaceAll (s @ c # y) pat rep = d # replaceAll (ds @ c # y) pat rep"
        using s 1(3) by (simp add: replaceAll_skip)
      from False s 1(3) have b: "replaceAll s pat rep = d # replaceAll ds pat rep"
        by (simp add: replaceAll_skip)
      from 1(2) 1(3,4) False s
      have "replaceAll (ds @ c # y) pat rep = replaceAll ds pat rep @ c # replaceAll y pat rep"
        by simp
      with a b show ?thesis by simp
    qed
  qed
qed

lemma replaceAll_occurrence:
  "pat \<noteq> [] \<Longrightarrow>
   (\<And>k. 0 < k \<Longrightarrow> k < length pat \<Longrightarrow> suffix (take k pat) u \<Longrightarrow>
         take (length pat - k) (pat @ v) \<noteq> drop k pat) \<Longrightarrow>
   replaceAll (u @ pat @ v) pat rep = replaceAll u pat rep @ rep @ replaceAll v pat rep"
proof (induction u pat rep rule: replaceAll.induct)
  case (1 s pat rep)
  note ne = 1(3) and free = 1(4)
  show ?case
  proof (cases s)
    case Nil
    with ne show ?thesis by (simp add: replaceAll_Nil replaceAll_match [of pat "pat @ v"])
  next
    case s: (Cons d ds)
    then have sne: "s \<noteq> []" by simp
    show ?thesis
    proof (cases "take (length pat) s = pat")
      case True
      then have len: "length pat \<le> length s" by (rule take_eq_length_le)
      then have t: "take (length pat) (s @ pat @ v) = pat" using True by simp
      have d: "drop (length pat) (s @ pat @ v) = drop (length pat) s @ pat @ v" using len by simp
      have "replaceAll (drop (length pat) s @ pat @ v) pat rep =
            replaceAll (drop (length pat) s) pat rep @ rep @ replaceAll v pat rep"
      proof (rule 1(1) [OF ne sne True ne])
        fix k assume k: "0 < k" "k < length pat" "suffix (take k pat) (drop (length pat) s)"
        from k(3) have "suffix (take k pat) s" by (meson suffix_drop suffix_order.trans)
        with k show "take (length pat - k) (pat @ v) \<noteq> drop k pat" by (intro free)
      qed
      with ne t d True show ?thesis
        by (simp add: replaceAll_match [of pat "s @ pat @ v"] replaceAll_match [of pat s])
    next
      case False
      have nm: "take (length pat) (s @ pat @ v) \<noteq> pat"
      proof (cases "length pat \<le> length s")
        case True
        with False show ?thesis by simp
      next
        case short: False
        show ?thesis
        proof
          assume eq: "take (length pat) (s @ pat @ v) = pat"
          let ?k = "length s"
          have k: "0 < ?k" "?k < length pat" using s short by simp_all
          from eq short have e2: "s @ take (length pat - ?k) (pat @ v) = pat" by simp
          then have "take ?k pat = s" by (metis append_eq_conv_conj)
          then have suf: "suffix (take ?k pat) s" by simp
          from e2 have "drop ?k pat = take (length pat - ?k) (pat @ v)"
            by (metis append_eq_conv_conj)
          with free [OF k suf] show False by simp
        qed
      qed
      then have a: "replaceAll (s @ pat @ v) pat rep = d # replaceAll (ds @ pat @ v) pat rep"
        using s ne by (simp add: replaceAll_skip)
      from False s ne have b: "replaceAll s pat rep = d # replaceAll ds pat rep"
        by (simp add: replaceAll_skip)
      have "replaceAll (tl s @ pat @ v) pat rep =
            replaceAll (tl s) pat rep @ rep @ replaceAll v pat rep"
      proof (rule 1(2) [OF ne sne False ne])
        fix k assume k: "0 < k" "k < length pat" "suffix (take k pat) (tl s)"
        from k(3) s have "suffix (take k pat) s" by (simp add: suffix_Cons)
        with k show "take (length pat - k) (pat @ v) \<noteq> drop k pat" by (intro free)
      qed
      with a b s show ?thesis by simp
    qed
  qed
qed

lemma replaceAll_keeps_rep:
  "pat \<noteq> [] \<Longrightarrow> rep \<noteq> [] \<Longrightarrow> last rep \<notin> set (replaceAll s pat rep) \<Longrightarrow>
   replaceAll s pat rep = s"
proof (induction s pat rep rule: replaceAll.induct)
  case (1 s pat rep)
  show ?case
  proof (cases s)
    case Nil
    with 1(3) show ?thesis by (simp add: replaceAll_Nil)
  next
    case s: (Cons d ds)
    show ?thesis
    proof (cases "take (length pat) s = pat")
      case True
      with 1(3,4,5) show ?thesis by (simp add: replaceAll_match)
    next
      case False
      with 1(3,5) s have "last rep \<notin> set (replaceAll ds pat rep)"
        by (simp add: replaceAll_skip)
      with 1(2) 1(3,4) False s have "replaceAll ds pat rep = ds" by simp
      with False 1(3) s show ?thesis by (simp add: replaceAll_skip)
    qed
  qed
qed

lemma replaceAll_suffix_reflect:
  "pat \<noteq> [] \<Longrightarrow> rep \<noteq> [] \<Longrightarrow> last rep \<notin> set q \<Longrightarrow>
   suffix q (replaceAll s pat rep) \<Longrightarrow> suffix q s"
proof (induction s pat rep rule: replaceAll.induct)
  case (1 s pat rep)
  show ?case
  proof (cases s)
    case Nil
    with 1(3,6) show ?thesis by (simp add: replaceAll_Nil)
  next
    case s: (Cons d ds)
    show ?thesis
    proof (cases "take (length pat) s = pat")
      case True
      let ?r = "replaceAll (drop (length pat) s) pat rep"
      from True 1(3,6) have "suffix q (rep @ ?r)" by (simp add: replaceAll_match)
      then have "suffix q ?r \<or> (\<exists>q'. suffix q' rep \<and> q = q' @ ?r)"
        by (auto simp: suffix_append)
      then have "suffix q ?r \<or> (\<exists>q'. suffix q' rep \<and> q' \<noteq> [] \<and> q = q' @ ?r)"
        by (metis append_Nil suffix_order.refl)
      then consider "suffix q ?r" | q' where "suffix q' rep" "q' \<noteq> []" "q = q' @ ?r"
        by blast
      then show ?thesis
      proof cases
        case 1
        with "1.IH"(1) "1.prems"(1,2,3) True s have "suffix q (drop (length pat) s)" by simp
        then show ?thesis by (meson suffix_drop suffix_order.trans)
      next
        case 2
        from 2(1,2) have "last q' = last rep" by (auto simp: suffix_def)
        with 2(2) have "last rep \<in> set q'" by (metis last_in_set)
        with 2(3) "1.prems"(3) show ?thesis by simp
      qed
    next
      case False
      let ?r = "replaceAll ds pat rep"
      from False 1(3,6) s have "suffix q (d # ?r)" by (simp add: replaceAll_skip)
      then consider "suffix q ?r" | "q = d # ?r" by (auto simp: suffix_Cons)
      then show ?thesis
      proof cases
        case 1
        with "1.IH"(2) "1.prems"(1,2,3) False s have "suffix q ds" by simp
        with s show ?thesis by (simp add: suffix_Cons)
      next
        case 2
        with "1.prems"(3) have "last rep \<notin> set ?r" by simp
        with "1.prems"(1,2) have "?r = ds" by (rule replaceAll_keeps_rep)
        with 2 s show ?thesis by simp
      qed
    qed
  qed
qed

lemma replaceAll_sep_list:
  "pat \<noteq> [] \<Longrightarrow> z \<noteq> [] \<Longrightarrow> set z \<inter> set pat = {} \<Longrightarrow>
   replaceAll (x @ z @ y) pat rep = replaceAll x pat rep @ z @ replaceAll y pat rep"
proof (induction z arbitrary: x)
  case Nil
  then show ?case by simp
next
  case (Cons c z)
  from Cons.prems have c: "c \<notin> set pat" by auto
  show ?case
  proof (cases "z = []")
    case True
    with Cons.prems(1) c show ?thesis by (simp add: replaceAll_sep)
  next
    case False
    with Cons.IH [of "[]"] Cons.prems
    have "replaceAll (z @ y) pat rep = z @ replaceAll y pat rep"
      by (simp add: replaceAll_Nil)
    with Cons.prems(1) c show ?thesis by (simp add: replaceAll_sep)
  qed
qed

lemma hotFix_never_opens_with_start:
  "\<not> startsWith (hotFixDiagramCode s) ''@start''"
proof
  assume a: "startsWith (hotFixDiagramCode s) ''@start''"
  let ?A = "''@endmindmap\<newline>@enduml''" and ?B = "''@endmindmap''"
  let ?C = "''```\<newline>```''" and ?D = "''```''"
  let ?w = "if startsWith s ''@start'' then ''```\<newline>'' @ s @ ''\<newline>```'' else s"
  from a have "take (length ''@start'') (replaceAll (replaceAll ?w ?A ?B) ?C ?D) = ''@start''"
    by (simp add: hotFixDiagramCode_def startsWith_def Let_def)
  then have t: "take (length ''@start'') (replaceAll ?w ?A ?B) = ''@start''"
    by (rule replaceAll_prefix_reflect [rotated -1]) simp_all
  show False
  proof (cases "startsWith s ''@start''")
    case True
    then have "replaceAll ?w ?A ?B = CHR 0x60 # replaceAll (''``\<newline>'' @ s @ ''\<newline>```'') ?A ?B"
      by (simp add: replaceAll_skip_hd)
    with t show False by simp
  next
    case False
    then have w: "?w = s" by simp
    show False
    proof (cases s)
      case Nil
      with t w show False by (simp add: replaceAll_Nil)
    next
      case (Cons c cs)
      show False
      proof (cases "take (length ?A) s = ?A")
        case True
        with t w show False by (simp add: replaceAll_match [of ?A s])
      next
        case nm: False
        with t w Cons have c: "c = CHR ''@''"
          and r: "take (length ''start'') (replaceAll cs ?A ?B) = ''start''"
          by (simp_all add: replaceAll_skip)
        from r have "take (length ''start'') cs = ''start''"
          by (rule replaceAll_prefix_reflect [rotated -1]) simp_all
        with c Cons False show False by (simp add: startsWith_def)
      qed
    qed
  qed
qed

lemma mindmap_pair_no_self_overlap:
  "0 < k \<Longrightarrow> k < length ''@endmindmap\<newline>@enduml'' \<Longrightarrow>
   take (length ''@endmindmap\<newline>@enduml'' - k) (''@endmindmap\<newline>@enduml'' @ v)
     \<noteq> drop k ''@endmindmap\<newline>@enduml''"
proof -
  assume "0 < k" "k < length ''@endmindmap\<newline>@enduml''"
  then have "0 < k" "k < 19" by simp_all
  then have "k \<in> {1,2,3,4,5,6,7,8,9,10,11,12,13,14,15,16,17,18}"
    by (simp, arith)
  then show ?thesis by auto
qed

lemma mindmap_collapse_everywhere:
  "replaceAll (u @ ''@endmindmap\<newline>@enduml'' @ v) ''@endmindmap\<newline>@enduml'' ''@endmindmap''
   = replaceAll u ''@endmindmap\<newline>@enduml'' ''@endmindmap'' @ ''@endmindmap''
     @ replaceAll v ''@endmindmap\<newline>@enduml'' ''@endmindmap''"
  by (rule replaceAll_occurrence) (simp, rule mindmap_pair_no_self_overlap)

lemma fence_pass_skips_mindmap_tag:
  "replaceAll (x @ ''@endmindmap'' @ y) ''```\<newline>```'' ''```''
   = replaceAll x ''```\<newline>```'' ''```'' @ ''@endmindmap'' @ replaceAll y ''```\<newline>```'' ''```''"
  by (rule replaceAll_sep_list) simp_all

lemma mindmap_pass_skips_fence_pair:
  "replaceAll (x @ ''```\<newline>```'' @ y) ''@endmindmap\<newline>@enduml'' ''@endmindmap''
   = replaceAll x ''@endmindmap\<newline>@enduml'' ''@endmindmap'' @ ''```\<newline>```''
     @ replaceAll y ''@endmindmap\<newline>@enduml'' ''@endmindmap''"
proof -
  let ?A = "''@endmindmap\<newline>@enduml''" and ?B = "''@endmindmap''"
  have f: "\<And>x y. replaceAll (x @ ''```'' @ y) ?A ?B = replaceAll x ?A ?B @ ''```'' @ replaceAll y ?A ?B"
    by (rule replaceAll_sep_list) simp_all
  have "replaceAll (x @ ''```'' @ (CHR ''\<newline>'' # ''```'' @ y)) ?A ?B
        = replaceAll x ?A ?B @ ''```'' @ replaceAll (CHR ''\<newline>'' # ''```'' @ y) ?A ?B"
    by (rule f)
  also have "replaceAll (CHR ''\<newline>'' # ''```'' @ y) ?A ?B
        = CHR ''\<newline>'' # replaceAll ([] @ ''```'' @ y) ?A ?B"
    by (simp add: replaceAll_skip_hd)
  also have "replaceAll ([] @ ''```'' @ y) ?A ?B = replaceAll [] ?A ?B @ ''```'' @ replaceAll y ?A ?B"
    by (rule f)
  finally show ?thesis by (simp add: replaceAll_Nil)
qed

lemma fence_pair_collapse:
  assumes "\<not> suffix ''```\<newline>'' u" "\<not> suffix ''```\<newline>`'' u" "\<not> suffix ''```\<newline>``'' u"
  shows "replaceAll (u @ ''```\<newline>```'' @ v) ''```\<newline>```'' ''```''
         = replaceAll u ''```\<newline>```'' ''```'' @ ''```'' @ replaceAll v ''```\<newline>```'' ''```''"
proof (rule replaceAll_occurrence)
  show "''```\<newline>```'' \<noteq> []" by simp
next
  fix k assume k: "0 < k" "k < length ''```\<newline>```''" and s: "suffix (take k ''```\<newline>```'') u"
  from k have "0 < k" "k < 7" by simp_all
  then have "k \<in> {1,2,3,4,5,6}" by (simp, arith)
  with s assms show "take (length ''```\<newline>```'' - k) (''```\<newline>```'' @ v) \<noteq> drop k ''```\<newline>```''"
    by auto
qed

section \<open>The repair function\<close>

text \<open>
  C4, as amended. The repair function applies its three substitutions in the order fence-wrap,
  mindmap-tag collapse, empty-fence collapse. The unfenced text
  \<^verbatim>\<open>@startuml\nA->B\n@enduml\<close> becomes the same text between two fence lines. Wherever
  the pair \<^verbatim>\<open>@endmindmap\n@enduml\<close> occurs in the text after the wrap, it is replaced by
  \<^verbatim>\<open>@endmindmap\<close>, the text before and after it being repaired in the same way. An
  occurrence of the empty fence pair is replaced by one fence in the same way when no earlier
  occurrence runs into it, that is, when the text before it does not end with the first four,
  five or six code units of the pair.
\<close>

theorem hotFixDiagramCode_ordered_substitutions:
  "hotFixDiagramCode s =
     replaceAll
       (replaceAll (if startsWith s ''@start'' then ''```\<newline>'' @ s @ ''\<newline>```'' else s)
          ''@endmindmap\<newline>@enduml'' ''@endmindmap'')
       ''```\<newline>```'' ''```''
   \<and> hotFixDiagramCode ''@startuml\<newline>A->B\<newline>@enduml''
       = ''```\<newline>@startuml\<newline>A->B\<newline>@enduml\<newline>```''
   \<and> ((if startsWith s ''@start'' then ''```\<newline>'' @ s @ ''\<newline>```'' else s)
          = u @ ''@endmindmap\<newline>@enduml'' @ v \<longrightarrow>
        hotFixDiagramCode s =
          replaceAll (replaceAll u ''@endmindmap\<newline>@enduml'' ''@endmindmap'') ''```\<newline>```'' ''```''
          @ ''@endmindmap''
          @ replaceAll (replaceAll v ''@endmindmap\<newline>@enduml'' ''@endmindmap'') ''```\<newline>```'' ''```'')
   \<and> ((if startsWith s ''@start'' then ''```\<newline>'' @ s @ ''\<newline>```'' else s)
          = u @ ''```\<newline>```'' @ v \<and>
        \<not> suffix ''```\<newline>'' u \<and> \<not> suffix ''```\<newline>`'' u \<and> \<not> suffix ''```\<newline>``'' u \<longrightarrow>
        hotFixDiagramCode s =
          replaceAll (replaceAll u ''@endmindmap\<newline>@enduml'' ''@endmindmap'') ''```\<newline>```'' ''```''
          @ ''```''
          @ replaceAll (replaceAll v ''@endmindmap\<newline>@enduml'' ''@endmindmap'') ''```\<newline>```'' ''```'')"
proof -
  let ?A = "''@endmindmap\<newline>@enduml''" and ?B = "''@endmindmap''"
  let ?C = "''```\<newline>```''" and ?D = "''```''"
  let ?w = "if startsWith s ''@start'' then ''```\<newline>'' @ s @ ''\<newline>```'' else s"
  have order: "hotFixDiagramCode s = replaceAll (replaceAll ?w ?A ?B) ?C ?D"
    by (simp add: hotFixDiagramCode_def Let_def)
  have example: "hotFixDiagramCode ''@startuml\<newline>A->B\<newline>@enduml''
       = ''```\<newline>@startuml\<newline>A->B\<newline>@enduml\<newline>```''"
    by code_simp
  have mindmap: "hotFixDiagramCode s =
      replaceAll (replaceAll u ?A ?B) ?C ?D @ ?B @ replaceAll (replaceAll v ?A ?B) ?C ?D"
    if "?w = u @ ?A @ v"
    unfolding order that
    by (simp only: mindmap_collapse_everywhere fence_pass_skips_mindmap_tag)
  have fence: "hotFixDiagramCode s =
      replaceAll (replaceAll u ?A ?B) ?C ?D @ ?D @ replaceAll (replaceAll v ?A ?B) ?C ?D"
    if w: "?w = u @ ?C @ v"
      and n: "\<not> suffix ''```\<newline>'' u" "\<not> suffix ''```\<newline>`'' u" "\<not> suffix ''```\<newline>``'' u"
  proof -
    have r: "\<not> suffix q (replaceAll u ?A ?B)" if "\<not> suffix q u" "CHR ''p'' \<notin> set q" for q
      using that replaceAll_suffix_reflect [of ?A ?B q u] by auto
    have m: "\<not> suffix ''```\<newline>'' (replaceAll u ?A ?B)"
      "\<not> suffix ''```\<newline>`'' (replaceAll u ?A ?B)"
      "\<not> suffix ''```\<newline>``'' (replaceAll u ?A ?B)"
      using n by (simp_all add: r)
    show ?thesis
      unfolding order w
      by (simp only: mindmap_pass_skips_fence_pair fence_pair_collapse [OF m])
  qed
  from order example mindmap fence show ?thesis by blast
qed

theorem hotFixDiagramCode_ordered_substitutions_witness:
  "(if startsWith ''A\<newline>@endmindmap\<newline>@enduml\<newline>```\<newline>```\<newline>B'' ''@start''
    then ''```\<newline>'' @ ''A\<newline>@endmindmap\<newline>@enduml\<newline>```\<newline>```\<newline>B'' @ ''\<newline>```''
    else ''A\<newline>@endmindmap\<newline>@enduml\<newline>```\<newline>```\<newline>B'')
     = ''A\<newline>'' @ ''@endmindmap\<newline>@enduml'' @ ''\<newline>```\<newline>```\<newline>B''
   \<and> (if startsWith ''A\<newline>@endmindmap\<newline>@enduml\<newline>```\<newline>```\<newline>B'' ''@start''
    then ''```\<newline>'' @ ''A\<newline>@endmindmap\<newline>@enduml\<newline>```\<newline>```\<newline>B'' @ ''\<newline>```''
    else ''A\<newline>@endmindmap\<newline>@enduml\<newline>```\<newline>```\<newline>B'')
     = ''A\<newline>@endmindmap\<newline>@enduml\<newline>'' @ ''```\<newline>```'' @ ''\<newline>B''
   \<and> \<not> suffix ''```\<newline>'' ''A\<newline>@endmindmap\<newline>@enduml\<newline>''
   \<and> \<not> suffix ''```\<newline>`'' ''A\<newline>@endmindmap\<newline>@enduml\<newline>''
   \<and> \<not> suffix ''```\<newline>``'' ''A\<newline>@endmindmap\<newline>@enduml\<newline>''
   \<and> hotFixDiagramCode ''A\<newline>@endmindmap\<newline>@enduml\<newline>```\<newline>```\<newline>B''
       = ''A\<newline>'' @ ''@endmindmap'' @ ''\<newline>```\<newline>B''
   \<and> hotFixDiagramCode ''A\<newline>@endmindmap\<newline>@enduml\<newline>```\<newline>```\<newline>B''
       = ''A\<newline>@endmindmap\<newline>'' @ ''```'' @ ''\<newline>B''"
proof -
  let ?s = "''A\<newline>@endmindmap\<newline>@enduml\<newline>```\<newline>```\<newline>B''"
  let ?A = "''@endmindmap\<newline>@enduml''" and ?B = "''@endmindmap''"
  let ?C = "''```\<newline>```''" and ?D = "''```''"
  let ?w = "if startsWith ?s ''@start'' then ''```\<newline>'' @ ?s @ ''\<newline>```'' else ?s"
  have h1: "?w = ''A\<newline>'' @ ?A @ ''\<newline>```\<newline>```\<newline>B''"
    by (simp add: startsWith_def)
  have h2: "?w = ''A\<newline>@endmindmap\<newline>@enduml\<newline>'' @ ?C @ ''\<newline>B''"
    by (simp add: startsWith_def)
  have h3: "\<not> suffix ''```\<newline>'' ''A\<newline>@endmindmap\<newline>@enduml\<newline>''
      \<and> \<not> suffix ''```\<newline>`'' ''A\<newline>@endmindmap\<newline>@enduml\<newline>''
      \<and> \<not> suffix ''```\<newline>``'' ''A\<newline>@endmindmap\<newline>@enduml\<newline>''"
    by code_simp
  have e1: "replaceAll (replaceAll ''A\<newline>'' ?A ?B) ?C ?D = ''A\<newline>''" by code_simp
  have e2: "replaceAll (replaceAll ''\<newline>```\<newline>```\<newline>B'' ?A ?B) ?C ?D = ''\<newline>```\<newline>B''"
    by code_simp
  have e3: "replaceAll (replaceAll ''A\<newline>@endmindmap\<newline>@enduml\<newline>'' ?A ?B) ?C ?D
      = ''A\<newline>@endmindmap\<newline>''" by code_simp
  have e4: "replaceAll (replaceAll ''\<newline>B'' ?A ?B) ?C ?D = ''\<newline>B''" by code_simp
  note T1 = hotFixDiagramCode_ordered_substitutions
    [of ?s "''A\<newline>''" "''\<newline>```\<newline>```\<newline>B''"]
  note T2 = hotFixDiagramCode_ordered_substitutions
    [of ?s "''A\<newline>@endmindmap\<newline>@enduml\<newline>''" "''\<newline>B''"]
  have c1: "hotFixDiagramCode ?s = ''A\<newline>'' @ ?B @ ''\<newline>```\<newline>B''"
    using T1 [THEN conjunct2, THEN conjunct2, THEN conjunct1, THEN mp, OF h1]
    by (simp only: e1 e2)
  have c2: "hotFixDiagramCode ?s = ''A\<newline>@endmindmap\<newline>'' @ ?D @ ''\<newline>B''"
    using T2 [THEN conjunct2, THEN conjunct2, THEN conjunct2, THEN mp, OF conjI [OF h2 h3]]
    by (simp only: e3 e4)
  show ?thesis
    by (intro conjI)
      (rule h1 h2 c1 c2 h3 [THEN conjunct1] h3 [THEN conjunct2, THEN conjunct1]
        h3 [THEN conjunct2, THEN conjunct2])+
qed

text \<open>
  C4, as the specification states it, fails for fence pairs that overlap: in three fences on
  three lines the pair occurs twice, the second time from the fifth code unit on; the scan
  replaces the first occurrence only, and the result still holds an empty fence pair.
\<close>

theorem fence_pair_left_after_overlap:
  "''```\<newline>```\<newline>```'' = ''```\<newline>'' @ ''```\<newline>```'' @ []
   \<and> hotFixDiagramCode ''```\<newline>```\<newline>```'' = ''```\<newline>```''
   \<and> contains (hotFixDiagramCode ''```\<newline>```\<newline>```'') ''```\<newline>```''"
  by code_simp

text \<open>
  C3, as amended. The repair function is idempotent on exactly those inputs whose repaired text
  holds neither \<^verbatim>\<open>@endmindmap\n@enduml\<close> nor an empty fence pair. Its result never begins
  with \<^verbatim>\<open>@start\<close>, so the fence is not added twice; but each \<open>replaceAll\<close> is one scan,
  and a second scan finds what the first one left or made.
\<close>

theorem hotFixDiagramCode_idempotent_iff_clean:
  "hotFixDiagramCode (hotFixDiagramCode s) = hotFixDiagramCode s \<longleftrightarrow>
   \<not> contains (hotFixDiagramCode s) ''@endmindmap\<newline>@enduml'' \<and>
   \<not> contains (hotFixDiagramCode s) ''```\<newline>```''"
proof -
  let ?A = "''@endmindmap\<newline>@enduml''" and ?B = "''@endmindmap''"
  let ?C = "''```\<newline>```''" and ?D = "''```''"
  let ?t = "hotFixDiagramCode s"
  have again: "hotFixDiagramCode ?t = replaceAll (replaceAll ?t ?A ?B) ?C ?D"
    using hotFix_never_opens_with_start [of s] by (simp add: hotFixDiagramCode_def [of ?t])
  show ?thesis
  proof (cases "contains ?t ?A")
    case True
    have "length (replaceAll (replaceAll ?t ?A ?B) ?C ?D) \<le> length (replaceAll ?t ?A ?B)"
      by (rule replaceAll_length_le) simp_all
    also have "\<dots> < length ?t"
      using True by (intro replaceAll_length_less) simp_all
    finally have "hotFixDiagramCode ?t \<noteq> ?t" using again by auto
    with True show ?thesis by simp
  next
    case noA: False
    then have a: "replaceAll ?t ?A ?B = ?t" by (intro replaceAll_absent) simp_all
    show ?thesis
    proof (cases "contains ?t ?C")
      case True
      then have "length (replaceAll ?t ?C ?D) < length ?t"
        by (intro replaceAll_length_less) simp_all
      with again a have "hotFixDiagramCode ?t \<noteq> ?t" by auto
      with True show ?thesis by simp
    next
      case False
      then have "replaceAll ?t ?C ?D = ?t" by (intro replaceAll_absent) simp_all
      with again a noA False show ?thesis by simp
    qed
  qed
qed

theorem hotFixDiagramCode_idempotent_iff_clean_witness:
  "\<not> contains (hotFixDiagramCode ''@startuml\<newline>A->B\<newline>@enduml'') ''@endmindmap\<newline>@enduml''
   \<and> \<not> contains (hotFixDiagramCode ''@startuml\<newline>A->B\<newline>@enduml'') ''```\<newline>```''
   \<and> hotFixDiagramCode (hotFixDiagramCode ''@startuml\<newline>A->B\<newline>@enduml'')
       = hotFixDiagramCode ''@startuml\<newline>A->B\<newline>@enduml''"
proof -
  have "\<not> contains (hotFixDiagramCode ''@startuml\<newline>A->B\<newline>@enduml'') ''@endmindmap\<newline>@enduml''
   \<and> \<not> contains (hotFixDiagramCode ''@startuml\<newline>A->B\<newline>@enduml'') ''```\<newline>```''"
    by code_simp
  with hotFixDiagramCode_idempotent_iff_clean [of "''@startuml\<newline>A->B\<newline>@enduml''"]
  show ?thesis by blast
qed

text \<open>
  C3, as the specification states it, fails: three fences on three lines are repaired to two
  fences on two lines, and those to one fence.
\<close>

theorem hotFixDiagramCode_not_idempotent:
  "hotFixDiagramCode (hotFixDiagramCode ''```\<newline>```\<newline>```'')
     \<noteq> hotFixDiagramCode ''```\<newline>```\<newline>```''"
  by code_simp

section \<open>The handlers of the dialog\<close>

text \<open>Running a list of effects is running its parts in order.\<close>

lemma run_Nil [simp]: "run [] st = st"
  by (simp add: run_def)

lemma run_Cons [simp]: "run (e # es) st = run es (apply_effect e st)"
  by (simp add: run_def)

lemma run_append [simp]: "run (es @ es') st = run es' (run es st)"
  by (simp add: run_def)

lemma fst_onUpdates_Cons:
  "fst (onUpdates (t # ts) local) =
     (if t \<noteq> [] then SetDiagramCode (Some t) # fst (onUpdates ts t) else fst (onUpdates ts local))"
  by (simp add: onUpdate_def split: prod.splits)

lemma snd_onUpdates_Cons:
  "snd (onUpdates (t # ts) local) =
     (if t \<noteq> [] then snd (onUpdates ts t) else snd (onUpdates ts local))"
  by (simp add: onUpdate_def split: prod.splits)

lemma onUpdates_local:
  "snd (onUpdates partials local) =
     (case filter (\<lambda>t. t \<noteq> []) partials of [] \<Rightarrow> local | t # ts \<Rightarrow> last (t # ts))"
proof (induction partials arbitrary: local)
  case Nil
  show ?case by simp
next
  case (Cons t partials)
  show ?case
  proof (cases "t = []")
    case True
    with Cons.IH [of local] show ?thesis by (simp only: snd_onUpdates_Cons) simp
  next
    case False
    with Cons.IH [of t] show ?thesis
      by (simp only: snd_onUpdates_Cons) (simp split: list.splits)
  qed
qed

lemma onUpdates_lastKnownText:
  "snd (onUpdates partials ''Loading...'') = lastKnownText partials"
  by (simp add: onUpdates_local lastKnownText_def)

lemma onUpdates_effects:
  "e \<in> set (fst (onUpdates partials local)) \<Longrightarrow> \<exists>t. t \<noteq> [] \<and> e = SetDiagramCode (Some t)"
proof (induction partials arbitrary: local)
  case Nil
  then show ?case by simp
next
  case (Cons t partials)
  show ?case
  proof (cases "t = []")
    case True
    with Cons.prems have "e \<in> set (fst (onUpdates partials local))"
      by (simp only: fst_onUpdates_Cons) simp
    then show ?thesis by (rule Cons.IH)
  next
    case False
    with Cons.prems have "e = SetDiagramCode (Some t) \<or> e \<in> set (fst (onUpdates partials t))"
      by (simp only: fst_onUpdates_Cons) simp
    with False Cons.IH [of t] show ?thesis by blast
  qed
qed

lemma onUpdates_diagramCode:
  "diagramCode st = Some local \<Longrightarrow>
   diagramCode (run (fst (onUpdates partials local)) st) = Some (snd (onUpdates partials local))"
proof (induction partials arbitrary: local st)
  case Nil
  then show ?case by simp
next
  case (Cons t partials)
  show ?case
  proof (cases "t = []")
    case True
    with Cons.IH [of st local] Cons.prems show ?thesis
      by (simp only: fst_onUpdates_Cons snd_onUpdates_Cons) simp
  next
    case False
    have "diagramCode (st\<lparr>diagramCode := Some t\<rparr>) = Some t" by simp
    from Cons.IH [OF this] False show ?thesis
      by (simp only: fst_onUpdates_Cons snd_onUpdates_Cons) simp
  qed
qed

lemma onUpdates_keeps:
  "abortController (run (fst (onUpdates partials local)) st) = abortController st
   \<and> errorMessage (run (fst (onUpdates partials local)) st) = errorMessage st
   \<and> diagramLlm (run (fst (onUpdates partials local)) st) = diagramLlm st"
proof (induction partials arbitrary: local st)
  case Nil
  then show ?case by simp
next
  case (Cons t partials)
  show ?case
  proof (cases "t = []")
    case True
    with Cons.IH [of local st] show ?thesis
      by (simp only: fst_onUpdates_Cons) simp
  next
    case False
    with Cons.IH [of t "st\<lparr>diagramCode := Some t\<rparr>"] show ?thesis
      by (simp only: fst_onUpdates_Cons) simp
  qed
qed

lemma begin_in_flight:
  "abortController st \<noteq> None \<Longrightarrow> handleGenerateNew_begin props conversations h st = ([], None)"
  by (simp add: handleGenerateNew_begin_def)

lemma settle_state:
  "diagramCode (run (handleGenerateNew_settle out local) st) = Some (hotFixDiagramCode local)
   \<and> abortController (run (handleGenerateNew_settle out local) st) = None"
  by (cases out) (simp_all add: handleGenerateNew_settle_def catch_block_def finally_block_def)

lemma begin_started:
  assumes "handleGenerateNew_begin props conversations h st = (es, Some w)"
  shows "w = (''Loading...'', h) \<and> abortController st = None \<and>
         (\<exists>llm p. es = [SetErrorMessage None, SetDiagramCode (Some ''Loading...''),
                        SetAbortController (Some h), LlmStreamingChatGenerate llm p h])"
proof (cases "abortController st = None")
  case False
  with assms show ?thesis by (simp add: handleGenerateNew_begin_def Let_def)
next
  case True
  note ac = this
  show ?thesis
  proof (cases "find (\<lambda>c. conv_id c = conversationId props) conversations")
    case None
    with assms ac show ?thesis by (simp add: handleGenerateNew_begin_def Let_def)
  next
    case (Some conversation)
    note cv = this
    show ?thesis
    proof (cases "diagramType st")
      case None
      with assms ac cv show ?thesis by (simp add: handleGenerateNew_begin_def Let_def)
    next
      case (Some ty)
      note ty = this
      show ?thesis
      proof (cases "diagramLanguage st")
        case None
        with assms ac cv ty show ?thesis by (simp add: handleGenerateNew_begin_def Let_def)
      next
        case (Some lang)
        note la = this
        show ?thesis
        proof (cases "diagramLlm st")
          case None
          with assms ac cv ty la show ?thesis by (simp add: handleGenerateNew_begin_def Let_def)
        next
          case (Some llm)
          with assms ac cv ty la show ?thesis
            by (cases "messages conversation")
               (auto simp add: handleGenerateNew_begin_def Let_def split: if_splits)
        qed
      qed
    qed
  qed
qed

lemma handleGenerateNew_started:
  assumes "handleGenerateNew_begin props conversations h st = (es, Some w)"
  shows "handleGenerateNew props conversations h partials out st =
           es @ fst (onUpdates partials ''Loading...'')
              @ handleGenerateNew_settle out (lastKnownText partials)"
proof -
  from begin_started [OF assms] have w: "w = (''Loading...'', h)" by simp
  obtain es' local' where u: "onUpdates partials ''Loading...'' = (es', local')"
    by (cases "onUpdates partials ''Loading...''")
  then have "local' = lastKnownText partials"
    using onUpdates_lastKnownText [of partials] by simp
  with assms w u show ?thesis by (simp add: handleGenerateNew_def)
qed

lemma onUpdates_no_handle_reset:
  "filter (\<lambda>e. e = SetAbortController None) (fst (onUpdates partials local)) = []"
  using onUpdates_effects [of _ partials local] by (auto simp: filter_empty_conv)

lemma run_keeps_selection:
  "diagramLlm (run es st) = diagramLlm st \<and> diagramType (run es st) = diagramType st
   \<and> diagramLanguage (run es st) = diagramLanguage st
   \<and> customInstruction (run es st) = customInstruction st
   \<and> showOptions (run es st) = showOptions st"
proof (induction es arbitrary: st)
  case Nil
  show ?case by simp
next
  case (Cons e es)
  show ?case using Cons.IH [of "apply_effect e st"] by (cases e) simp_all
qed

lemma begin_invalid:
  assumes "abortController st = None"
    and "\<not> truthy (diagramType st) \<or> \<not> truthy (diagramLanguage st) \<or> diagramLlm st = None
         \<or> find (\<lambda>c. conv_id c = conversationId props) conversations = None"
  shows "handleGenerateNew_begin props conversations h st =
           ([SetErrorMessage (Some ''Invalid diagram Type, Language, Generator, or conversation.'')],
            None)"
  using assms
  by (auto simp add: handleGenerateNew_begin_def Let_def truthy_def split: option.splits)

lemma begin_no_system:
  assumes "abortController st = None"
    and "truthy (diagramType st)" "truthy (diagramLanguage st)" "diagramLlm st \<noteq> None"
    and "find (\<lambda>c. conv_id c = conversationId props) conversations = Some conversation"
    and "case messages conversation of [] \<Rightarrow> True | m # ms \<Rightarrow> role m \<noteq> ''system''"
  shows "handleGenerateNew_begin props conversations h st =
           ([SetErrorMessage (Some ''No System message in this conversation'')], None)"
  using assms
  by (auto simp add: handleGenerateNew_begin_def Let_def truthy_def
           split: option.splits list.splits)

text \<open>
  C1. While a generation is in flight (the cancel handle is not \<^verbatim>\<open>null\<close>),
  \<^verbatim>\<open>handleGenerateNew\<close> does nothing: it issues no effect at all, so no second streaming
  call, and the state it leaves is the state it found, whatever the store, the new controller
  and the streaming client would have been.
\<close>

theorem startGeneration_noop_while_in_flight:
  "abortController st \<noteq> None \<Longrightarrow>
     handleGenerateNew props conversations h partials out st = []
     \<and> \<not> list_ex is_streaming_call (handleGenerateNew props conversations h partials out st)
     \<and> run (handleGenerateNew props conversations h partials out st) st = st"
  by (simp add: handleGenerateNew_def begin_in_flight)

theorem startGeneration_noop_while_in_flight_witness:
  "abortController
      \<lparr>showOptions = True, diagramCode = Some ''Loading...'', diagramType = Some ''auto'',
       diagramLanguage = Some ''plantuml'', customInstruction = [], errorMessage = None,
       abortController = Some 0, diagramLlm = Some \<lparr>llm_id = ''gpt''\<rparr>\<rparr> \<noteq> None
   \<and> handleGenerateNew \<lparr>conversationId = ''c1'', messageId = ''m1'', config_text = ''subject''\<rparr>
        [\<lparr>conv_id = ''c1'', messages = [\<lparr>role = ''system'', message_text = ''You are helpful'', originLLM = None\<rparr>]\<rparr>]
        1 [''@startuml\<newline>A->B\<newline>@enduml''] Resolved
        \<lparr>showOptions = True, diagramCode = Some ''Loading...'', diagramType = Some ''auto'',
       diagramLanguage = Some ''plantuml'', customInstruction = [], errorMessage = None,
       abortController = Some 0, diagramLlm = Some \<lparr>llm_id = ''gpt''\<rparr>\<rparr> = []"
proof -
  have h: "abortController
      \<lparr>showOptions = True, diagramCode = Some ''Loading...'', diagramType = Some ''auto'',
       diagramLanguage = Some ''plantuml'', customInstruction = [], errorMessage = None,
       abortController = Some 0, diagramLlm = Some \<lparr>llm_id = ''gpt''\<rparr>\<rparr> \<noteq> None" by simp
  show ?thesis using h startGeneration_noop_while_in_flight [OF h] by simp
qed

text \<open>
  C2. When \<^verbatim>\<open>handleGenerateNew\<close> has issued its streaming call, then however the call
  settles, the handler ends with the two setters of the \<^verbatim>\<open>finally\<close> block, once: the
  last known text, repaired, becomes the result, and the cancel handle becomes
  \<^verbatim>\<open>null\<close>. Nothing before them resets the handle. The state after the run holds the
  repaired last known text, also after an error that is not a cancellation.
\<close>

theorem finalization_runs_once:
  assumes "handleGenerateNew_begin props conversations h st = (es, Some w)"
  shows "handleGenerateNew props conversations h partials out st =
           es @ fst (onUpdates partials ''Loading...'')
              @ (case out of Resolved \<Rightarrow> [] | Rejected error \<Rightarrow> catch_block error)
              @ [SetDiagramCode (Some (hotFixDiagramCode (lastKnownText partials))),
                 SetAbortController None]
     \<and> length (filter (\<lambda>e. e = SetAbortController None)
                 (handleGenerateNew props conversations h partials out st)) = 1
     \<and> diagramCode (run (handleGenerateNew props conversations h partials out st) st)
         = Some (hotFixDiagramCode (lastKnownText partials))
     \<and> abortController (run (handleGenerateNew props conversations h partials out st) st) = None"
proof -
  note eq = handleGenerateNew_started [OF assms, of partials out]
  from begin_started [OF assms] obtain llm p where
    es: "es = [SetErrorMessage None, SetDiagramCode (Some ''Loading...''),
               SetAbortController (Some h), LlmStreamingChatGenerate llm p h]"
    by blast
  have shape: "handleGenerateNew props conversations h partials out st =
           es @ fst (onUpdates partials ''Loading...'')
              @ (case out of Resolved \<Rightarrow> [] | Rejected error \<Rightarrow> catch_block error)
              @ [SetDiagramCode (Some (hotFixDiagramCode (lastKnownText partials))),
                 SetAbortController None]"
    by (simp add: eq handleGenerateNew_settle_def finally_block_def)
  have once: "length (filter (\<lambda>e. e = SetAbortController None)
                 (handleGenerateNew props conversations h partials out st)) = 1"
    unfolding shape
    by (cases out) (simp_all add: es onUpdates_no_handle_reset catch_block_def)
  have final: "diagramCode (run (handleGenerateNew props conversations h partials out st) st)
         = Some (hotFixDiagramCode (lastKnownText partials))
     \<and> abortController (run (handleGenerateNew props conversations h partials out st) st) = None"
    unfolding eq by (simp add: settle_state)
  from shape once final show ?thesis by simp
qed

theorem finalization_runs_once_witness:
  "handleGenerateNew_begin \<lparr>conversationId = ''c1'', messageId = ''m1'', config_text = ''subject''\<rparr>
      [\<lparr>conv_id = ''c1'', messages = [\<lparr>role = ''system'', message_text = ''You are helpful'', originLLM = None\<rparr>]\<rparr>]
      7 \<lparr>showOptions = True, diagramCode = None, diagramType = Some ''auto'',
       diagramLanguage = Some ''plantuml'', customInstruction = [], errorMessage = None,
       abortController = None, diagramLlm = Some \<lparr>llm_id = ''gpt''\<rparr>\<rparr>
     = ([SetErrorMessage None, SetDiagramCode (Some ''Loading...''), SetAbortController (Some 7),
      LlmStreamingChatGenerate ''gpt''
        (BigDiagramPrompt ''auto'' ''plantuml'' ''You are helpful'' ''subject'' []) 7], Some (''Loading...'', 7))
   \<and> diagramCode
        (run (handleGenerateNew \<lparr>conversationId = ''c1'', messageId = ''m1'', config_text = ''subject''\<rparr>
                [\<lparr>conv_id = ''c1'', messages = [\<lparr>role = ''system'', message_text = ''You are helpful'', originLLM = None\<rparr>]\<rparr>]
                7 [ [],''@startuml\<newline>A->B\<newline>@enduml''] (Rejected \<lparr>err_name = Some ''TypeError'', err_message = Some ''fetch failed''\<rparr>)
                \<lparr>showOptions = True, diagramCode = None, diagramType = Some ''auto'',
       diagramLanguage = Some ''plantuml'', customInstruction = [], errorMessage = None,
       abortController = None, diagramLlm = Some \<lparr>llm_id = ''gpt''\<rparr>\<rparr>)
           \<lparr>showOptions = True, diagramCode = None, diagramType = Some ''auto'',
       diagramLanguage = Some ''plantuml'', customInstruction = [], errorMessage = None,
       abortController = None, diagramLlm = Some \<lparr>llm_id = ''gpt''\<rparr>\<rparr>)
       = Some ''```\<newline>@startuml\<newline>A->B\<newline>@enduml\<newline>```''
   \<and> abortController
        (run (handleGenerateNew \<lparr>conversationId = ''c1'', messageId = ''m1'', config_text = ''subject''\<rparr>
                [\<lparr>conv_id = ''c1'', messages = [\<lparr>role = ''system'', message_text = ''You are helpful'', originLLM = None\<rparr>]\<rparr>]
                7 [ [],''@startuml\<newline>A->B\<newline>@enduml''] (Rejected \<lparr>err_name = Some ''TypeError'', err_message = Some ''fetch failed''\<rparr>)
                \<lparr>showOptions = True, diagramCode = None, diagramType = Some ''auto'',
       diagramLanguage = Some ''plantuml'', customInstruction = [], errorMessage = None,
       abortController = None, diagramLlm = Some \<lparr>llm_id = ''gpt''\<rparr>\<rparr>)
           \<lparr>showOptions = True, diagramCode = None, diagramType = Some ''auto'',
       diagramLanguage = Some ''plantuml'', customInstruction = [], errorMessage = None,
       abortController = None, diagramLlm = Some \<lparr>llm_id = ''gpt''\<rparr>\<rparr>)
       = None"
proof -
  have h: "handleGenerateNew_begin \<lparr>conversationId = ''c1'', messageId = ''m1'', config_text = ''subject''\<rparr>
      [\<lparr>conv_id = ''c1'', messages = [\<lparr>role = ''system'', message_text = ''You are helpful'', originLLM = None\<rparr>]\<rparr>]
      7 \<lparr>showOptions = True, diagramCode = None, diagramType = Some ''auto'',
       diagramLanguage = Some ''plantuml'', customInstruction = [], errorMessage = None,
       abortController = None, diagramLlm = Some \<lparr>llm_id = ''gpt''\<rparr>\<rparr>
     = ([SetErrorMessage None, SetDiagramCode (Some ''Loading...''), SetAbortController (Some 7),
      LlmStreamingChatGenerate ''gpt''
        (BigDiagramPrompt ''auto'' ''plantuml'' ''You are helpful'' ''subject'' []) 7], Some (''Loading...'', 7))"
    by (simp add: handleGenerateNew_begin_def)
  have v: "hotFixDiagramCode (lastKnownText [ [],''@startuml\<newline>A->B\<newline>@enduml'']) = ''```\<newline>@startuml\<newline>A->B\<newline>@enduml\<newline>```''"
    by code_simp
  note T = finalization_runs_once [OF h, of "[ [],''@startuml\<newline>A->B\<newline>@enduml'']" "Rejected \<lparr>err_name = Some ''TypeError'', err_message = Some ''fetch failed''\<rparr>"]
  from T have a: "diagramCode
        (run (handleGenerateNew \<lparr>conversationId = ''c1'', messageId = ''m1'', config_text = ''subject''\<rparr>
                [\<lparr>conv_id = ''c1'', messages = [\<lparr>role = ''system'', message_text = ''You are helpful'', originLLM = None\<rparr>]\<rparr>]
                7 [ [],''@startuml\<newline>A->B\<newline>@enduml''] (Rejected \<lparr>err_name = Some ''TypeError'', err_message = Some ''fetch failed''\<rparr>)
                \<lparr>showOptions = True, diagramCode = None, diagramType = Some ''auto'',
       diagramLanguage = Some ''plantuml'', customInstruction = [], errorMessage = None,
       abortController = None, diagramLlm = Some \<lparr>llm_id = ''gpt''\<rparr>\<rparr>)
           \<lparr>showOptions = True, diagramCode = None, diagramType = Some ''auto'',
       diagramLanguage = Some ''plantuml'', customInstruction = [], errorMessage = None,
       abortController = None, diagramLlm = Some \<lparr>llm_id = ''gpt''\<rparr>\<rparr>)
       = Some (hotFixDiagramCode (lastKnownText [ [],''@startuml\<newline>A->B\<newline>@enduml'']))" by (elim conjE)
  from T have b: "abortController
        (run (handleGenerateNew \<lparr>conversationId = ''c1'', messageId = ''m1'', config_text = ''subject''\<rparr>
                [\<lparr>conv_id = ''c1'', messages = [\<lparr>role = ''system'', message_text = ''You are helpful'', originLLM = None\<rparr>]\<rparr>]
                7 [ [],''@startuml\<newline>A->B\<newline>@enduml''] (Rejected \<lparr>err_name = Some ''TypeError'', err_message = Some ''fetch failed''\<rparr>)
                \<lparr>showOptions = True, diagramCode = None, diagramType = Some ''auto'',
       diagramLanguage = Some ''plantuml'', customInstruction = [], errorMessage = None,
       abortController = None, diagramLlm = Some \<lparr>llm_id = ''gpt''\<rparr>\<rparr>)
           \<lparr>showOptions = True, diagramCode = None, diagramType = Some ''auto'',
       diagramLanguage = Some ''plantuml'', customInstruction = [], errorMessage = None,
       abortController = None, diagramLlm = Some \<lparr>llm_id = ''gpt''\<rparr>\<rparr>)
       = None" by (elim conjE)
  from h a [unfolded v] b show ?thesis by (intro conjI)
qed

text \<open>
  C5, as amended. When no generation is in flight and a diagram type, a syntax, a model or the
  conversation is missing, or the conversation has no first message or one whose role is not
  \<^verbatim>\<open>system\<close>, then \<^verbatim>\<open>handleGenerateNew\<close> issues no streaming call; its only effect
  is to set one of the two validation messages, and the result text and the cancel handle stay
  as they were.
\<close>

theorem validation_gating_when_idle:
  assumes "abortController st = None"
    and "\<not> truthy (diagramType st) \<or> \<not> truthy (diagramLanguage st) \<or> diagramLlm st = None
         \<or> (case find (\<lambda>c. conv_id c = conversationId props) conversations of
               None \<Rightarrow> True
             | Some conversation \<Rightarrow>
                 (case messages conversation of [] \<Rightarrow> True | m # ms \<Rightarrow> role m \<noteq> ''system''))"
  shows "(\<exists>msg. (msg = ''Invalid diagram Type, Language, Generator, or conversation.''
                 \<or> msg = ''No System message in this conversation'')
           \<and> handleGenerateNew props conversations h partials out st = [SetErrorMessage (Some msg)]
           \<and> run (handleGenerateNew props conversations h partials out st) st
               = st\<lparr>errorMessage := Some msg\<rparr>)
         \<and> \<not> list_ex is_streaming_call (handleGenerateNew props conversations h partials out st)
         \<and> diagramCode (run (handleGenerateNew props conversations h partials out st) st)
             = diagramCode st
         \<and> abortController (run (handleGenerateNew props conversations h partials out st) st)
             = abortController st"
proof (cases "\<not> truthy (diagramType st) \<or> \<not> truthy (diagramLanguage st) \<or> diagramLlm st = None
         \<or> find (\<lambda>c. conv_id c = conversationId props) conversations = None")
  case True
  from begin_invalid [OF assms(1) True, of h]
  have "handleGenerateNew props conversations h partials out st =
          [SetErrorMessage (Some ''Invalid diagram Type, Language, Generator, or conversation.'')]"
    by (simp add: handleGenerateNew_def)
  then show ?thesis by simp
next
  case False
  then obtain conversation where
    c: "find (\<lambda>c. conv_id c = conversationId props) conversations = Some conversation" by auto
  with assms(2) False
  have "case messages conversation of [] \<Rightarrow> True | m # ms \<Rightarrow> role m \<noteq> ''system''" by auto
  with begin_no_system [OF assms(1) _ _ _ c, of h] False
  have "handleGenerateNew props conversations h partials out st =
          [SetErrorMessage (Some ''No System message in this conversation'')]"
    by (simp add: handleGenerateNew_def)
  then show ?thesis by simp
qed

theorem validation_gating_when_idle_witness:
  "abortController
      \<lparr>showOptions = True, diagramCode = None, diagramType = Some ''auto'',
       diagramLanguage = Some ''plantuml'', customInstruction = [], errorMessage = None,
       abortController = None, diagramLlm = None\<rparr> = None
   \<and> diagramLlm
      \<lparr>showOptions = True, diagramCode = None, diagramType = Some ''auto'',
       diagramLanguage = Some ''plantuml'', customInstruction = [], errorMessage = None,
       abortController = None, diagramLlm = None\<rparr> = None
   \<and> handleGenerateNew \<lparr>conversationId = ''c1'', messageId = ''m1'', config_text = ''subject''\<rparr>
        [\<lparr>conv_id = ''c1'', messages = [\<lparr>role = ''system'', message_text = ''You are helpful'', originLLM = None\<rparr>]\<rparr>]
        7 [''@startuml\<newline>A->B\<newline>@enduml''] Resolved
        \<lparr>showOptions = True, diagramCode = None, diagramType = Some ''auto'',
       diagramLanguage = Some ''plantuml'', customInstruction = [], errorMessage = None,
       abortController = None, diagramLlm = None\<rparr>
       = [SetErrorMessage (Some ''Invalid diagram Type, Language, Generator, or conversation.'')]"
proof -
  let ?st = "\<lparr>showOptions = True, diagramCode = None, diagramType = Some ''auto'',
       diagramLanguage = Some ''plantuml'', customInstruction = [], errorMessage = None,
       abortController = None, diagramLlm = None\<rparr>"
  let ?props = "\<lparr>conversationId = ''c1'', messageId = ''m1'', config_text = ''subject''\<rparr>"
  let ?convs = "[\<lparr>conv_id = ''c1'', messages = [\<lparr>role = ''system'', message_text = ''You are helpful'', originLLM = None\<rparr>]\<rparr>]"
  have h1: "abortController ?st = None" by simp
  have h2: "\<not> truthy (diagramType ?st) \<or> \<not> truthy (diagramLanguage ?st) \<or> diagramLlm ?st = None
         \<or> (case find (\<lambda>c. conv_id c = conversationId ?props) ?convs of
               None \<Rightarrow> True
             | Some conversation \<Rightarrow>
                 (case messages conversation of [] \<Rightarrow> True | m # ms \<Rightarrow> role m \<noteq> ''system''))"
    by simp
  from validation_gating_when_idle [OF h1 h2, of 7 "[''@startuml\<newline>A->B\<newline>@enduml'']" Resolved]
  obtain msg where m: "handleGenerateNew ?props ?convs 7 [''@startuml\<newline>A->B\<newline>@enduml''] Resolved ?st
                        = [SetErrorMessage (Some msg)]"
    by blast
  have "handleGenerateNew ?props ?convs 7 [''@startuml\<newline>A->B\<newline>@enduml''] Resolved ?st
         = [SetErrorMessage (Some ''Invalid diagram Type, Language, Generator, or conversation.'')]"
    by (simp add: handleGenerateNew_def handleGenerateNew_begin_def)
  with m show ?thesis by simp
qed

text \<open>
  C5, as the specification states it, fails: with a generation in flight and no model selected,
  the handler returns at its first guard, and no validation message is set.
\<close>

theorem validation_skipped_while_in_flight:
  "diagramLlm
      \<lparr>showOptions = True, diagramCode = Some ''Loading...'', diagramType = Some ''auto'',
       diagramLanguage = Some ''plantuml'', customInstruction = [], errorMessage = None,
       abortController = Some 0, diagramLlm = None\<rparr> = None
   \<and> errorMessage
        (run (handleGenerateNew \<lparr>conversationId = ''c1'', messageId = ''m1'', config_text = ''subject''\<rparr>
                [\<lparr>conv_id = ''c1'', messages = [\<lparr>role = ''system'', message_text = ''You are helpful'', originLLM = None\<rparr>]\<rparr>]
                7 [] Resolved
                \<lparr>showOptions = True, diagramCode = Some ''Loading...'', diagramType = Some ''auto'',
       diagramLanguage = Some ''plantuml'', customInstruction = [], errorMessage = None,
       abortController = Some 0, diagramLlm = None\<rparr>)
           \<lparr>showOptions = True, diagramCode = Some ''Loading...'', diagramType = Some ''auto'',
       diagramLanguage = Some ''plantuml'', customInstruction = [], errorMessage = None,
       abortController = Some 0, diagramLlm = None\<rparr>)
       = None"
  by (simp add: handleGenerateNew_def handleGenerateNew_begin_def)

text \<open>
  C6, as amended. When the streaming call is rejected with an error named
  \<^verbatim>\<open>AbortError\<close>, the run ends with the cancel handle \<^verbatim>\<open>null\<close>, the message
  \<^verbatim>\<open>Interrupted.\<close>, with its full stop and whatever the message of the error was, and the
  repaired last known text as the result. The same holds of the rest of the handler alone, in
  whatever state the dialog is when the call settles.
\<close>

theorem cancellation_ends_idle:
  assumes "handleGenerateNew_begin props conversations h st = (es, Some w)"
    and "err_name error = Some ''AbortError''"
  shows "abortController (run (handleGenerateNew props conversations h partials (Rejected error) st) st)
           = None
     \<and> errorMessage (run (handleGenerateNew props conversations h partials (Rejected error) st) st)
           = Some ''Interrupted.''
     \<and> diagramCode (run (handleGenerateNew props conversations h partials (Rejected error) st) st)
           = Some (hotFixDiagramCode (lastKnownText partials))
     \<and> abortController (run (handleGenerateNew_settle (Rejected error) local) st') = None
     \<and> errorMessage (run (handleGenerateNew_settle (Rejected error) local) st')
           = Some ''Interrupted.''
     \<and> diagramCode (run (handleGenerateNew_settle (Rejected error) local) st')
           = Some (hotFixDiagramCode local)"
proof -
  have step: "errorMessage (run (handleGenerateNew_settle (Rejected error) l) s) = Some ''Interrupted.''"
    for l s
    using assms(2) by (simp add: handleGenerateNew_settle_def catch_block_def finally_block_def)
  show ?thesis
    unfolding handleGenerateNew_started [OF assms(1)]
    by (simp add: settle_state step)
qed

theorem cancellation_ends_idle_witness:
  "handleGenerateNew_begin \<lparr>conversationId = ''c1'', messageId = ''m1'', config_text = ''subject''\<rparr>
      [\<lparr>conv_id = ''c1'', messages = [\<lparr>role = ''system'', message_text = ''You are helpful'', originLLM = None\<rparr>]\<rparr>]
      7 \<lparr>showOptions = True, diagramCode = None, diagramType = Some ''auto'',
       diagramLanguage = Some ''plantuml'', customInstruction = [], errorMessage = None,
       abortController = None, diagramLlm = Some \<lparr>llm_id = ''gpt''\<rparr>\<rparr>
     = ([SetErrorMessage None, SetDiagramCode (Some ''Loading...''), SetAbortController (Some 7),
      LlmStreamingChatGenerate ''gpt''
        (BigDiagramPrompt ''auto'' ''plantuml'' ''You are helpful'' ''subject'' []) 7], Some (''Loading...'', 7))
   \<and> err_name \<lparr>err_name = Some ''AbortError'', err_message = Some ''The user aborted a request.''\<rparr> = Some ''AbortError''
   \<and> errorMessage
        (run (handleGenerateNew \<lparr>conversationId = ''c1'', messageId = ''m1'', config_text = ''subject''\<rparr>
                [\<lparr>conv_id = ''c1'', messages = [\<lparr>role = ''system'', message_text = ''You are helpful'', originLLM = None\<rparr>]\<rparr>]
                7 [''@startuml\<newline>A->B\<newline>@enduml''] (Rejected \<lparr>err_name = Some ''AbortError'', err_message = Some ''The user aborted a request.''\<rparr>)
                \<lparr>showOptions = True, diagramCode = None, diagramType = Some ''auto'',
       diagramLanguage = Some ''plantuml'', customInstruction = [], errorMessage = None,
       abortController = None, diagramLlm = Some \<lparr>llm_id = ''gpt''\<rparr>\<rparr>)
           \<lparr>showOptions = True, diagramCode = None, diagramType = Some ''auto'',
       diagramLanguage = Some ''plantuml'', customInstruction = [], errorMessage = None,
       abortController = None, diagramLlm = Some \<lparr>llm_id = ''gpt''\<rparr>\<rparr>)
       = Some ''Interrupted.''
   \<and> abortController
        (run (handleGenerateNew \<lparr>conversationId = ''c1'', messageId = ''m1'', config_text = ''subject''\<rparr>
                [\<lparr>conv_id = ''c1'', messages = [\<lparr>role = ''system'', message_text = ''You are helpful'', originLLM = None\<rparr>]\<rparr>]
                7 [''@startuml\<newline>A->B\<newline>@enduml''] (Rejected \<lparr>err_name = Some ''AbortError'', err_message = Some ''The user aborted a request.''\<rparr>)
                \<lparr>showOptions = True, diagramCode = None, diagramType = Some ''auto'',
       diagramLanguage = Some ''plantuml'', customInstruction = [], errorMessage = None,
       abortController = None, diagramLlm = Some \<lparr>llm_id = ''gpt''\<rparr>\<rparr>)
           \<lparr>showOptions = True, diagramCode = None, diagramType = Some ''auto'',
       diagramLanguage = Some ''plantuml'', customInstruction = [], errorMessage = None,
       abortController = None, diagramLlm = Some \<lparr>llm_id = ''gpt''\<rparr>\<rparr>)
       = None"
proof -
  have h: "handleGenerateNew_begin \<lparr>conversationId = ''c1'', messageId = ''m1'', config_text = ''subject''\<rparr>
      [\<lparr>conv_id = ''c1'', messages = [\<lparr>role = ''system'', message_text = ''You are helpful'', originLLM = None\<rparr>]\<rparr>]
      7 \<lparr>showOptions = True, diagramCode = None, diagramType = Some ''auto'',
       diagramLanguage = Some ''plantuml'', customInstruction = [], errorMessage = None,
       abortController = None, diagramLlm = Some \<lparr>llm_id = ''gpt''\<rparr>\<rparr>
     = ([SetErrorMessage None, SetDiagramCode (Some ''Loading...''), SetAbortController (Some 7),
      LlmStreamingChatGenerate ''gpt''
        (BigDiagramPrompt ''auto'' ''plantuml'' ''You are helpful'' ''subject'' []) 7], Some (''Loading...'', 7))"
    by (simp add: handleGenerateNew_begin_def)
  have n: "err_name \<lparr>err_name = Some ''AbortError'', err_message = Some ''The user aborted a request.''\<rparr> = Some ''AbortError''" by simp
  note T = cancellation_ends_idle [OF h n, of "[''@startuml\<newline>A->B\<newline>@enduml'']"]
  have a: "errorMessage
        (run (handleGenerateNew \<lparr>conversationId = ''c1'', messageId = ''m1'', config_text = ''subject''\<rparr>
                [\<lparr>conv_id = ''c1'', messages = [\<lparr>role = ''system'', message_text = ''You are helpful'', originLLM = None\<rparr>]\<rparr>]
                7 [''@startuml\<newline>A->B\<newline>@enduml''] (Rejected \<lparr>err_name = Some ''AbortError'', err_message = Some ''The user aborted a request.''\<rparr>)
                \<lparr>showOptions = True, diagramCode = None, diagramType = Some ''auto'',
       diagramLanguage = Some ''plantuml'', customInstruction = [], errorMessage = None,
       abortController = None, diagramLlm = Some \<lparr>llm_id = ''gpt''\<rparr>\<rparr>)
           \<lparr>showOptions = True, diagramCode = None, diagramType = Some ''auto'',
       diagramLanguage = Some ''plantuml'', customInstruction = [], errorMessage = None,
       abortController = None, diagramLlm = Some \<lparr>llm_id = ''gpt''\<rparr>\<rparr>)
       = Some ''Interrupted.''" by (rule T [THEN conjunct2, THEN conjunct1])
  have b: "abortController
        (run (handleGenerateNew \<lparr>conversationId = ''c1'', messageId = ''m1'', config_text = ''subject''\<rparr>
                [\<lparr>conv_id = ''c1'', messages = [\<lparr>role = ''system'', message_text = ''You are helpful'', originLLM = None\<rparr>]\<rparr>]
                7 [''@startuml\<newline>A->B\<newline>@enduml''] (Rejected \<lparr>err_name = Some ''AbortError'', err_message = Some ''The user aborted a request.''\<rparr>)
                \<lparr>showOptions = True, diagramCode = None, diagramType = Some ''auto'',
       diagramLanguage = Some ''plantuml'', customInstruction = [], errorMessage = None,
       abortController = None, diagramLlm = Some \<lparr>llm_id = ''gpt''\<rparr>\<rparr>)
           \<lparr>showOptions = True, diagramCode = None, diagramType = Some ''auto'',
       diagramLanguage = Some ''plantuml'', customInstruction = [], errorMessage = None,
       abortController = None, diagramLlm = Some \<lparr>llm_id = ''gpt''\<rparr>\<rparr>)
       = None" by (rule T [THEN conjunct1])
  from h n a b show ?thesis by (intro conjI)
qed

text \<open>
  C6, as the specification states it, fails in the text of the message: after a rejection named
  \<^verbatim>\<open>AbortError\<close> the message of the dialog is \<^verbatim>\<open>Interrupted.\<close>, which is not the
  \<^verbatim>\<open>Interrupted\<close> of the claim.
\<close>

theorem cancellation_message_has_full_stop:
  "err_name \<lparr>err_name = Some ''AbortError'', err_message = Some ''The user aborted a request.''\<rparr>
     = Some ''AbortError''
   \<and> errorMessage
        (run (handleGenerateNew
                \<lparr>conversationId = ''c1'', messageId = ''m1'', config_text = ''subject''\<rparr>
                [\<lparr>conv_id = ''c1'',
                  messages = [\<lparr>role = ''system'', message_text = ''You are helpful'',
                               originLLM = None\<rparr>]\<rparr>]
                7 []
                (Rejected \<lparr>err_name = Some ''AbortError'',
                           err_message = Some ''The user aborted a request.''\<rparr>)
                \<lparr>showOptions = True, diagramCode = None, diagramType = Some ''auto'',
                 diagramLanguage = Some ''plantuml'', customInstruction = [],
                 errorMessage = None, abortController = None,
                 diagramLlm = Some \<lparr>llm_id = ''gpt''\<rparr>\<rparr>)
           \<lparr>showOptions = True, diagramCode = None, diagramType = Some ''auto'',
            diagramLanguage = Some ''plantuml'', customInstruction = [],
            errorMessage = None, abortController = None,
            diagramLlm = Some \<lparr>llm_id = ''gpt''\<rparr>\<rparr>)
       \<noteq> Some ''Interrupted''"
  by (simp add: handleGenerateNew_def handleGenerateNew_begin_def handleGenerateNew_settle_def
        catch_block_def finally_block_def)

text \<open>
  C7. With no result text, or an empty one, \<^verbatim>\<open>handleInsertAndClose\<close> only sets the message
  \<^verbatim>\<open>Nothing to add to the conversation.\<close>: it appends nothing to the store and does not
  close the dialog.
\<close>

theorem commit_needs_result:
  "diagramCode st = None \<or> diagramCode st = Some [] \<Longrightarrow>
     handleInsertAndClose props st = [SetErrorMessage (Some ''Nothing to add to the conversation.'')]
     \<and> \<not> list_ex is_store_mutation (handleInsertAndClose props st)
     \<and> OnClose \<notin> set (handleInsertAndClose props st)
     \<and> run (handleInsertAndClose props st) st
         = st\<lparr>errorMessage := Some ''Nothing to add to the conversation.''\<rparr>"
  by (auto simp: handleInsertAndClose_def truthy_def)

theorem commit_needs_result_witness:
  "(diagramCode \<lparr>showOptions = True, diagramCode = None, diagramType = Some ''auto'',
       diagramLanguage = Some ''plantuml'', customInstruction = [], errorMessage = None,
       abortController = None, diagramLlm = Some \<lparr>llm_id = ''gpt''\<rparr>\<rparr> = None
    \<or> diagramCode \<lparr>showOptions = True, diagramCode = None, diagramType = Some ''auto'',
       diagramLanguage = Some ''plantuml'', customInstruction = [], errorMessage = None,
       abortController = None, diagramLlm = Some \<lparr>llm_id = ''gpt''\<rparr>\<rparr> = Some [])
   \<and> handleInsertAndClose \<lparr>conversationId = ''c1'', messageId = ''m1'', config_text = ''subject''\<rparr>
        \<lparr>showOptions = True, diagramCode = None, diagramType = Some ''auto'',
       diagramLanguage = Some ''plantuml'', customInstruction = [], errorMessage = None,
       abortController = None, diagramLlm = Some \<lparr>llm_id = ''gpt''\<rparr>\<rparr>
       = [SetErrorMessage (Some ''Nothing to add to the conversation.'')]"
proof -
  have h: "diagramCode \<lparr>showOptions = True, diagramCode = None, diagramType = Some ''auto'',
       diagramLanguage = Some ''plantuml'', customInstruction = [], errorMessage = None,
       abortController = None, diagramLlm = Some \<lparr>llm_id = ''gpt''\<rparr>\<rparr> = None
    \<or> diagramCode \<lparr>showOptions = True, diagramCode = None, diagramType = Some ''auto'',
       diagramLanguage = Some ''plantuml'', customInstruction = [], errorMessage = None,
       abortController = None, diagramLlm = Some \<lparr>llm_id = ''gpt''\<rparr>\<rparr> = Some []" by simp
  from commit_needs_result [OF h] h show ?thesis by simp
qed

text \<open>
  C8. When the dialog is unmounted while a generation is in flight, the cleanup of the effect
  calls \<^verbatim>\<open>abort()\<close> on the handle of the state, once, and resets the handle.
\<close>

theorem unmount_aborts_once:
  "abortController st = Some controller \<Longrightarrow>
     unmount st = [Abort controller, SetAbortController None]
     \<and> length (filter is_abort (unmount st)) = 1
     \<and> abortController (run (unmount st) st) = None"
  by (simp add: unmount_def autoAbort_cleanup_def)

theorem unmount_aborts_once_witness:
  "abortController \<lparr>showOptions = True, diagramCode = Some ''Loading...'', diagramType = Some ''auto'',
       diagramLanguage = Some ''plantuml'', customInstruction = [], errorMessage = None,
       abortController = Some 0, diagramLlm = Some \<lparr>llm_id = ''gpt''\<rparr>\<rparr> = Some 0
   \<and> unmount \<lparr>showOptions = True, diagramCode = Some ''Loading...'', diagramType = Some ''auto'',
       diagramLanguage = Some ''plantuml'', customInstruction = [], errorMessage = None,
       abortController = Some 0, diagramLlm = Some \<lparr>llm_id = ''gpt''\<rparr>\<rparr> = [Abort 0, SetAbortController None]"
proof -
  have h: "abortController \<lparr>showOptions = True, diagramCode = Some ''Loading...'', diagramType = Some ''auto'',
       diagramLanguage = Some ''plantuml'', customInstruction = [], errorMessage = None,
       abortController = Some 0, diagramLlm = Some \<lparr>llm_id = ''gpt''\<rparr>\<rparr> = Some 0" by simp
  from unmount_aborts_once [OF h] h show ?thesis by simp
qed

text \<open>
  C10. When the streaming call resolves and no non-empty text was delivered, the result is the
  placeholder \<^verbatim>\<open>Loading...\<close>, which the repair leaves as it is; it is not empty, so
  \<^verbatim>\<open>handleInsertAndClose\<close> then appends it to the conversation and closes the dialog.
\<close>

theorem placeholder_survives:
  assumes "handleGenerateNew_begin props conversations h st = (es, Some w)"
    and "\<forall>t \<in> set partials. t = []"
  shows "diagramCode (run (handleGenerateNew props conversations h partials Resolved st) st)
           = Some ''Loading...''
     \<and> hotFixDiagramCode ''Loading...'' = ''Loading...''
     \<and> handleInsertAndClose props
          (run (handleGenerateNew props conversations h partials Resolved st) st)
         = [AppendMessage (conversationId props)
              \<lparr>role = ''assistant'', message_text = ''Loading...'',
               originLLM = Some (originTag (diagramLlm st))\<rparr>,
            OnClose]"
proof -
  from assms(2) have "filter (\<lambda>t. t \<noteq> []) partials = []" by (simp add: filter_empty_conv)
  then have l: "lastKnownText partials = ''Loading...''" by (simp add: lastKnownText_def)
  have hf: "hotFixDiagramCode ''Loading...'' = ''Loading...''" by code_simp
  let ?st' = "run (handleGenerateNew props conversations h partials Resolved st) st"
  have code: "diagramCode ?st' = Some ''Loading...''"
    unfolding handleGenerateNew_started [OF assms(1)] by (simp add: settle_state l hf)
  have llm: "diagramLlm ?st' = diagramLlm st" by (simp add: run_keeps_selection)
  from code llm hf show ?thesis
    by (simp add: handleInsertAndClose_def truthy_def createDMessage_def)
qed

theorem placeholder_survives_witness:
  "handleGenerateNew_begin \<lparr>conversationId = ''c1'', messageId = ''m1'', config_text = ''subject''\<rparr>
      [\<lparr>conv_id = ''c1'', messages = [\<lparr>role = ''system'', message_text = ''You are helpful'', originLLM = None\<rparr>]\<rparr>]
      7 \<lparr>showOptions = True, diagramCode = None, diagramType = Some ''auto'',
       diagramLanguage = Some ''plantuml'', customInstruction = [], errorMessage = None,
       abortController = None, diagramLlm = Some \<lparr>llm_id = ''gpt''\<rparr>\<rparr>
     = ([SetErrorMessage None, SetDiagramCode (Some ''Loading...''), SetAbortController (Some 7),
      LlmStreamingChatGenerate ''gpt''
        (BigDiagramPrompt ''auto'' ''plantuml'' ''You are helpful'' ''subject'' []) 7], Some (''Loading...'', 7))
   \<and> handleInsertAndClose \<lparr>conversationId = ''c1'', messageId = ''m1'', config_text = ''subject''\<rparr>
        (run (handleGenerateNew \<lparr>conversationId = ''c1'', messageId = ''m1'', config_text = ''subject''\<rparr>
                [\<lparr>conv_id = ''c1'', messages = [\<lparr>role = ''system'', message_text = ''You are helpful'', originLLM = None\<rparr>]\<rparr>]
                7 [ [],[]] Resolved
                \<lparr>showOptions = True, diagramCode = None, diagramType = Some ''auto'',
       diagramLanguage = Some ''plantuml'', customInstruction = [], errorMessage = None,
       abortController = None, diagramLlm = Some \<lparr>llm_id = ''gpt''\<rparr>\<rparr>)
           \<lparr>showOptions = True, diagramCode = None, diagramType = Some ''auto'',
       diagramLanguage = Some ''plantuml'', customInstruction = [], errorMessage = None,
       abortController = None, diagramLlm = Some \<lparr>llm_id = ''gpt''\<rparr>\<rparr>)
       = [AppendMessage ''c1''
            \<lparr>role = ''assistant'', message_text = ''Loading...'', originLLM = Some ''diagram-gpt''\<rparr>,
          OnClose]"
proof -
  have h: "handleGenerateNew_begin \<lparr>conversationId = ''c1'', messageId = ''m1'', config_text = ''subject''\<rparr>
      [\<lparr>conv_id = ''c1'', messages = [\<lparr>role = ''system'', message_text = ''You are helpful'', originLLM = None\<rparr>]\<rparr>]
      7 \<lparr>showOptions = True, diagramCode = None, diagramType = Some ''auto'',
       diagramLanguage = Some ''plantuml'', customInstruction = [], errorMessage = None,
       abortController = None, diagramLlm = Some \<lparr>llm_id = ''gpt''\<rparr>\<rparr>
     = ([SetErrorMessage None, SetDiagramCode (Some ''Loading...''), SetAbortController (Some 7),
      LlmStreamingChatGenerate ''gpt''
        (BigDiagramPrompt ''auto'' ''plantuml'' ''You are helpful'' ''subject'' []) 7], Some (''Loading...'', 7))"
    by (simp add: handleGenerateNew_begin_def)
  have e: "\<forall>t \<in> set [ [],[]::string]. t = []" by simp
  note T = placeholder_survives [OF h e]
  from T have a: "handleInsertAndClose \<lparr>conversationId = ''c1'', messageId = ''m1'', config_text = ''subject''\<rparr>
        (run (handleGenerateNew \<lparr>conversationId = ''c1'', messageId = ''m1'', config_text = ''subject''\<rparr>
                [\<lparr>conv_id = ''c1'', messages = [\<lparr>role = ''system'', message_text = ''You are helpful'', originLLM = None\<rparr>]\<rparr>]
                7 [ [],[]] Resolved
                \<lparr>showOptions = True, diagramCode = None, diagramType = Some ''auto'',
       diagramLanguage = Some ''plantuml'', customInstruction = [], errorMessage = None,
       abortController = None, diagramLlm = Some \<lparr>llm_id = ''gpt''\<rparr>\<rparr>)
           \<lparr>showOptions = True, diagramCode = None, diagramType = Some ''auto'',
       diagramLanguage = Some ''plantuml'', customInstruction = [], errorMessage = None,
       abortController = None, diagramLlm = Some \<lparr>llm_id = ''gpt''\<rparr>\<rparr>)
       = [AppendMessage (conversationId \<lparr>conversationId = ''c1'', messageId = ''m1'', config_text = ''subject''\<rparr>)
            \<lparr>role = ''assistant'', message_text = ''Loading...'',
             originLLM = Some (originTag (diagramLlm \<lparr>showOptions = True, diagramCode = None, diagramType = Some ''auto'',
       diagramLanguage = Some ''plantuml'', customInstruction = [], errorMessage = None,
       abortController = None, diagramLlm = Some \<lparr>llm_id = ''gpt''\<rparr>\<rparr>))\<rparr>,
          OnClose]" by (elim conjE)
  have o: "originTag (diagramLlm \<lparr>showOptions = True, diagramCode = None, diagramType = Some ''auto'',
       diagramLanguage = Some ''plantuml'', customInstruction = [], errorMessage = None,
       abortController = None, diagramLlm = Some \<lparr>llm_id = ''gpt''\<rparr>\<rparr>) = ''diagram-gpt''"
    by (simp add: originTag_def DIAGRAM_ACTOR_PREFIX_def)
  have c: "conversationId \<lparr>conversationId = ''c1'', messageId = ''m1'', config_text = ''subject''\<rparr> = ''c1''" by simp
  from h a [unfolded o c] show ?thesis by (intro conjI)
qed

section \<open>Invariants of the dialog\<close>

text \<open>
  Two facts hold in every state a dialog reaches. The result text is never the empty string:
  it is \<^verbatim>\<open>null\<close>, the placeholder, a non-empty partial text or a repaired non-empty text,
  and the repair does not empty a text. And at most one run of \<^verbatim>\<open>handleGenerateNew\<close>
  waits for its streaming call, the one whose controller is the cancel handle of the state.
\<close>

lemma begin_not_started:
  assumes "handleGenerateNew_begin props conversations h st = (es, None)"
  shows "es = [] \<or> (\<exists>msg. es = [SetErrorMessage (Some msg)])"
proof (cases "abortController st = None")
  case False
  with assms show ?thesis by (simp add: begin_in_flight)
next
  case idle: True
  show ?thesis
  proof (cases "\<not> truthy (diagramType st) \<or> \<not> truthy (diagramLanguage st) \<or> diagramLlm st = None
         \<or> find (\<lambda>c. conv_id c = conversationId props) conversations = None")
    case True
    from begin_invalid [OF idle True, of h] assms show ?thesis by simp
  next
    case False
    then obtain conversation llm ty lang where
      c: "find (\<lambda>c. conv_id c = conversationId props) conversations = Some conversation"
      and l: "diagramLlm st = Some llm" and ty: "diagramType st = Some ty" "ty \<noteq> []"
      and la: "diagramLanguage st = Some lang" "lang \<noteq> []"
      by (auto simp: truthy_def split: option.splits)
    show ?thesis
    proof (cases "messages conversation")
      case Nil
      with assms idle c l ty la show ?thesis
        by (auto simp add: handleGenerateNew_begin_def Let_def)
    next
      case (Cons m ms)
      with assms idle c l ty la show ?thesis
        by (auto simp add: handleGenerateNew_begin_def Let_def split: if_splits)
    qed
  qed
qed

lemma replaceAll_nonempty:
  "pat \<noteq> [] \<Longrightarrow> rep \<noteq> [] \<Longrightarrow> s \<noteq> [] \<Longrightarrow> replaceAll s pat rep \<noteq> []"
proof -
  assume ne: "pat \<noteq> []" "rep \<noteq> []" "s \<noteq> []"
  then obtain c cs where s: "s = c # cs" by (cases s) auto
  show ?thesis
  proof (cases "take (length pat) s = pat")
    case True
    with ne show ?thesis by (simp add: replaceAll_match)
  next
    case False
    with ne s show ?thesis by (simp add: replaceAll_skip)
  qed
qed

lemma hotFixDiagramCode_nonempty: "s \<noteq> [] \<Longrightarrow> hotFixDiagramCode s \<noteq> []"
  by (simp add: hotFixDiagramCode_def Let_def replaceAll_nonempty)

lemma settle_result_nonempty:
  "local \<noteq> [] \<Longrightarrow> diagramCode (run (handleGenerateNew_settle out local) st) \<noteq> Some []"
  by (simp add: settle_state hotFixDiagramCode_nonempty)

lemma insert_keeps_result:
  "diagramCode (run (handleInsertAndClose props st) st) = diagramCode st"
  by (simp add: handleInsertAndClose_def split: option.splits)

lemma reachable_result_nonempty:
  "reachable props c \<Longrightarrow> diagramCode (fst c) \<noteq> Some [] \<and> (\<forall>w \<in> set (snd c). fst w \<noteq> [])"
proof (induction rule: reachable.induct)
  case (mount llm)
  show ?case by simp
next
  case (select st waiting so ty lang ci llm)
  then show ?case by simp
next
  case (generate st waiting h conversations es started)
  show ?case
  proof (cases started)
    case None
    from begin_not_started [OF generate.hyps(3) [unfolded None]] generate.IH None
    show ?thesis by auto
  next
    case (Some w)
    from begin_started [OF generate.hyps(3) [unfolded Some]] generate.IH Some
    show ?thesis by auto
  qed
next
  case (deliver st waiting i textSoFar es local')
  from deliver.IH deliver.hyps(2) have "fst (waiting ! i) \<noteq> []" by simp
  with deliver.hyps(3) have l: "local' \<noteq> []" and
    es: "es = [] \<or> (es = [SetDiagramCode (Some textSoFar)] \<and> textSoFar \<noteq> [])"
    by (auto simp: onUpdate_def split: if_splits)
  from es deliver.IH have "diagramCode (run es st) \<noteq> Some []" by auto
  moreover have "\<forall>w \<in> set (waiting[i := (local', snd (waiting ! i))]). fst w \<noteq> []"
    using deliver.IH l by (auto dest!: set_update_subset_insert [THEN subsetD])
  ultimately show ?case by simp
next
  case (settle st waiting i out)
  from settle.IH settle.hyps(2) have "fst (waiting ! i) \<noteq> []" by simp
  then have "diagramCode (run (handleGenerateNew_settle out (fst (waiting ! i))) st) \<noteq> Some []"
    by (rule settle_result_nonempty)
  moreover have "\<forall>w \<in> set (take i waiting @ drop (Suc i) waiting). fst w \<noteq> []"
    using settle.IH by (auto dest: in_set_takeD in_set_dropD)
  ultimately show ?case by simp
next
  case (insert st waiting)
  then show ?case by (simp add: insert_keeps_result)
qed

lemma insert_keeps_handle:
  "abortController (run (handleInsertAndClose props st) st) = abortController st"
  by (simp add: handleInsertAndClose_def split: option.splits)

lemma reachable_one_in_flight:
  "reachable props c \<Longrightarrow>
   length (snd c) \<le> 1 \<and>
   abortController (fst c) = (case snd c of [] \<Rightarrow> None | w # ws \<Rightarrow> Some (snd w))"
proof (induction rule: reachable.induct)
  case (mount llm)
  show ?case by simp
next
  case (select st waiting so ty lang ci llm)
  then show ?case by simp
next
  case (generate st waiting h conversations es started)
  show ?case
  proof (cases started)
    case None
    from begin_not_started [OF generate.hyps(3) [unfolded None]] generate.IH None
    show ?thesis by auto
  next
    case (Some w)
    note b = begin_started [OF generate.hyps(3) [unfolded Some]]
    with generate.IH have "waiting = []" by (cases waiting) auto
    with b Some show ?thesis by auto
  qed
next
  case (deliver st waiting i textSoFar es local')
  from deliver.IH deliver.hyps(2) obtain w where w: "waiting = [w]" "i = 0"
    by (cases waiting) auto
  from deliver.hyps(3) have "es = [] \<or> es = [SetDiagramCode (Some textSoFar)]"
    by (auto simp: onUpdate_def split: if_splits)
  with deliver.IH w show ?case by auto
next
  case (settle st waiting i out)
  from settle.IH settle.hyps(2) obtain w where w: "waiting = [w]" "i = 0"
    by (cases waiting) auto
  then show ?case by (simp add: settle_state)
next
  case (insert st waiting)
  then show ?case by (simp add: insert_keeps_handle)
qed

text \<open>
  C9. \<^verbatim>\<open>handleInsertAndClose\<close> does not look at the cancel handle. In every state a dialog
  reaches, with or without a generation in flight, a result text that is not \<^verbatim>\<open>null\<close>
  makes it append exactly one message to the conversation, with the role \<^verbatim>\<open>assistant\<close>,
  the result text and the origin tag, and close the dialog. The tag is \<^verbatim>\<open>diagram\<close> when
  no model is selected and \<^verbatim>\<open>diagram-\<close> followed by the identifier of the selected model
  (an empty identifier counts as none). Only the button is disabled while a handle is set.
\<close>

theorem commit_ignores_in_flight:
  assumes "reachable props (st, waiting)" and "diagramCode st = Some code"
  shows "handleInsertAndClose props st =
           [AppendMessage (conversationId props)
              \<lparr>role = ''assistant'', message_text = code,
               originLLM = Some (originTag (diagramLlm st))\<rparr>,
            OnClose]
     \<and> length (filter is_store_mutation (handleInsertAndClose props st)) = 1
     \<and> originTag None = ''diagram''
     \<and> (llm_id llm \<noteq> [] \<longrightarrow> originTag (Some llm) = ''diagram-'' @ llm_id llm)
     \<and> (abortController st \<noteq> None \<longrightarrow> addToChat_disabled st)"
proof -
  from reachable_result_nonempty [OF assms(1)] assms(2) have "code \<noteq> []" by auto
  with assms(2) have
    "handleInsertAndClose props st =
           [AppendMessage (conversationId props)
              \<lparr>role = ''assistant'', message_text = code,
               originLLM = Some (originTag (diagramLlm st))\<rparr>,
            OnClose]"
    by (simp add: handleInsertAndClose_def truthy_def createDMessage_def)
  then show ?thesis
    by (simp add: originTag_def DIAGRAM_ACTOR_PREFIX_def addToChat_disabled_def)
qed

theorem commit_ignores_in_flight_witness:
  "reachable \<lparr>conversationId = ''c1'', messageId = ''m1'', config_text = ''subject''\<rparr>
     (\<lparr>showOptions = True, diagramCode = Some ''Loading...'', diagramType = Some ''auto'',
       diagramLanguage = Some ''plantuml'', customInstruction = [], errorMessage = None,
       abortController = Some 7, diagramLlm = Some \<lparr>llm_id = ''gpt''\<rparr>\<rparr>,
      [(''Loading...'', 7)])
   \<and> diagramCode \<lparr>showOptions = True, diagramCode = Some ''Loading...'', diagramType = Some ''auto'',
       diagramLanguage = Some ''plantuml'', customInstruction = [], errorMessage = None,
       abortController = Some 7, diagramLlm = Some \<lparr>llm_id = ''gpt''\<rparr>\<rparr> = Some ''Loading...''
   \<and> abortController \<lparr>showOptions = True, diagramCode = Some ''Loading...'', diagramType = Some ''auto'',
       diagramLanguage = Some ''plantuml'', customInstruction = [], errorMessage = None,
       abortController = Some 7, diagramLlm = Some \<lparr>llm_id = ''gpt''\<rparr>\<rparr> = Some 7
   \<and> handleInsertAndClose \<lparr>conversationId = ''c1'', messageId = ''m1'', config_text = ''subject''\<rparr>
        \<lparr>showOptions = True, diagramCode = Some ''Loading...'', diagramType = Some ''auto'',
       diagramLanguage = Some ''plantuml'', customInstruction = [], errorMessage = None,
       abortController = Some 7, diagramLlm = Some \<lparr>llm_id = ''gpt''\<rparr>\<rparr>
       = [AppendMessage ''c1''
            \<lparr>role = ''assistant'', message_text = ''Loading...'', originLLM = Some ''diagram-gpt''\<rparr>,
          OnClose]"
proof -
  let ?props = "\<lparr>conversationId = ''c1'', messageId = ''m1'', config_text = ''subject''\<rparr>"
  let ?idle = "\<lparr>showOptions = True, diagramCode = None, diagramType = Some ''auto'',
       diagramLanguage = Some ''plantuml'', customInstruction = [], errorMessage = None,
       abortController = None, diagramLlm = Some \<lparr>llm_id = ''gpt''\<rparr>\<rparr>"
  let ?busy = "\<lparr>showOptions = True, diagramCode = Some ''Loading...'', diagramType = Some ''auto'',
       diagramLanguage = Some ''plantuml'', customInstruction = [], errorMessage = None,
       abortController = Some 7, diagramLlm = Some \<lparr>llm_id = ''gpt''\<rparr>\<rparr>"
  have m: "reachable ?props (?idle, [])" by (rule reachable.mount)
  have b: "handleGenerateNew_begin ?props
      [\<lparr>conv_id = ''c1'', messages = [\<lparr>role = ''system'', message_text = ''You are helpful'', originLLM = None\<rparr>]\<rparr>] 7 ?idle
     = ([SetErrorMessage None, SetDiagramCode (Some ''Loading...''), SetAbortController (Some 7),
      LlmStreamingChatGenerate ''gpt''
        (BigDiagramPrompt ''auto'' ''plantuml'' ''You are helpful'' ''subject'' []) 7], Some (''Loading...'', 7))"
    by (simp add: handleGenerateNew_begin_def)
  have f: "(7::nat) \<notin> snd ` set ([] :: (string \<times> handle) list)" by simp
  from reachable.generate [OF m f b]
  have r: "reachable ?props (?busy, [(''Loading...'', 7)])" by simp
  have c: "diagramCode ?busy = Some ''Loading...''" by simp
  have a: "abortController ?busy = Some 7" by simp
  note T = commit_ignores_in_flight [OF r c, THEN conjunct1]
  have o: "originTag (diagramLlm ?busy) = ''diagram-gpt''"
    by (simp add: originTag_def DIAGRAM_ACTOR_PREFIX_def)
  have i: "conversationId ?props = ''c1''" by simp
  from r c a T [unfolded o i] show ?thesis by (intro conjI)
qed

end
